theory Spec2Isabelle
  imports Main "HOL-Library.Word"
begin

section \<open>Machine integers, byte strings and aborts\<close>

text \<open>
  Move's \<open>u8\<close> and \<open>u64\<close> and Solidity's \<open>uint8\<close> and \<open>uint64\<close> are words of
  that width; \<open>vector<u8>\<close> and \<open>bytes\<close> are lists of bytes. A Move address is a
  256-bit word.
\<close>

type_synonym u8 = "8 word"
type_synonym u64 = "64 word"
type_synonym bytes = "8 word list"
type_synonym address = "256 word"

text \<open>
  A Move abort carries the code and the module that raised it; arithmetic that leaves
  the range of \<open>u64\<close> aborts the transaction without a code of a module.
\<close>

datatype move_module =
    M_committee | M_treasury | M_vec_map | M_vec_set | M_vector
  | M_dynamic_field | M_balance

datatype abort = Abort move_module nat | ArithmeticError

text \<open>The error constants of \<open>bridge::committee\<close> (lines 17-20 of the module).\<close>

definition ESignatureBelowThreshold :: abort where
  "ESignatureBelowThreshold = Abort M_committee 0"

definition EDuplicatedSignature :: abort where
  "EDuplicatedSignature = Abort M_committee 1"

definition EInvalidSignature :: abort where
  "EInvalidSignature = Abort M_committee 2"

definition ENotSystemAddress :: abort where
  "ENotSystemAddress = Abort M_committee 3"

text \<open>The error constants of \<open>bridge::treasury\<close> (latest revision).\<close>

definition EUnsupportedTokenType :: abort where
  "EUnsupportedTokenType = Abort M_treasury 0"

definition EInvalidUpgradeCap :: abort where
  "EInvalidUpgradeCap = Abort M_treasury 1"

definition ETokenSupplyNonZero :: abort where
  "ETokenSupplyNonZero = Abort M_treasury 2"

text \<open>Checked \<open>u64\<close> addition: Move aborts where the sum does not fit.\<close>

definition u64_add :: "u64 \<Rightarrow> u64 \<Rightarrow> abort + u64" where
  "u64_add a b = (if unat a + unat b < 2 ^ 64 then Inr (a + b) else Inl ArithmeticError)"

section \<open>Message codec\<close>

text \<open>
  Modelled from the spec: \<open>BridgeUtils.Message\<close> and \<open>bridge::message::BridgeMessage\<close>
  are declared outside the sources at hand; the fields are those the Solidity test
  fills in (\<open>messageType\<close>, \<open>version\<close>, \<open>nonce\<close>, \<open>chainID\<close>, \<open>payload\<close>) with the
  widths of the spec's data model.
\<close>

record BridgeMessage =
  messageType :: u8
  version :: u8
  nonce :: u64
  chainID :: u8
  payload :: bytes

text \<open>\<open>SUI_MESSAGE_PREFIX\<close> is the byte string \<open>b"SUI_BRIDGE_MESSAGE"\<close>.\<close>

definition ascii_bytes :: "string \<Rightarrow> bytes" where
  "ascii_bytes s = map (\<lambda>c. of_nat (of_char c)) s"

definition SUI_MESSAGE_PREFIX :: bytes where
  "SUI_MESSAGE_PREFIX = ascii_bytes ''SUI_BRIDGE_MESSAGE''"

text \<open>The eight bytes of a \<open>u64\<close>, most significant first.\<close>

definition u64_be :: "u64 \<Rightarrow> bytes" where
  "u64_be n = map (\<lambda>i. ucast (drop_bit (8 * (7 - i)) n)) [0..<8]"

text \<open>
  Modelled from the spec: \<open>BridgeUtils.encodeMessage\<close> is called by the Solidity test
  but defined outside the sources at hand. The spec gives the layout: the domain tag,
  then \<open>messageType\<close> (1 byte), \<open>version\<close> (1 byte), \<open>nonce\<close> (8 bytes, big-endian),
  the chain id (1 byte) and the raw payload.
\<close>

definition encodeMessage :: "BridgeMessage \<Rightarrow> bytes" where
  "encodeMessage m =
     SUI_MESSAGE_PREFIX @ [messageType m] @ [version m] @ u64_be (nonce m)
       @ [chainID m] @ payload m"

text \<open>
  Modelled from the spec: the constant \<open>BridgeUtils.UPDATE_TOKEN_PRICES\<close> is defined
  outside the sources at hand; its value 4 is the type byte of the expected encoding
  of the Solidity test, the byte that follows the tag.
\<close>

definition UPDATE_TOKEN_PRICES :: u8 where
  "UPDATE_TOKEN_PRICES = 4"

section \<open>Containers of the framework\<close>

text \<open>
  Modelled from the spec: \<open>std::vector\<close>, \<open>sui::vec_set\<close>, \<open>sui::vec_map\<close>,
  \<open>sui::bag\<close> and \<open>sui::object_bag\<close> are used by the bridge modules but lie outside
  the sources at hand. The spec asks that every failed lookup is fatal to the call and
  never defaulted, and that a removal of a missing entry fails with "not found"; the
  abort codes of the dynamic fields under a bag are the ones the tests of
  \<open>sui::dynamic_object_field\<close> expect (0 for a duplicate key, 1 for a missing one).
  A \<open>VecMap\<close> is a vector of entries searched from the front, a \<open>VecSet\<close> a vector
  of keys, a bag a finite map.
\<close>

definition vector_borrow :: "'a list \<Rightarrow> nat \<Rightarrow> abort + 'a" where
  "vector_borrow v i = (if i < length v then Inr (v ! i) else Inl (Abort M_vector 131072))"

type_synonym 'k VecSet = "'k list"

definition vec_set_contains :: "'k VecSet \<Rightarrow> 'k \<Rightarrow> bool" where
  "vec_set_contains s k = (k \<in> set s)"

definition vec_set_size :: "'k VecSet \<Rightarrow> nat" where
  "vec_set_size s = length s"

definition vec_set_insert :: "'k VecSet \<Rightarrow> 'k \<Rightarrow> abort + 'k VecSet" where
  "vec_set_insert s k =
     (if vec_set_contains s k then Inl (Abort M_vec_set 0) else Inr (s @ [k]))"

type_synonym ('k, 'v) VecMap = "('k \<times> 'v) list"

fun get_idx_opt :: "('k, 'v) VecMap \<Rightarrow> 'k \<Rightarrow> nat option" where
  "get_idx_opt [] k = None"
| "get_idx_opt (e # m) k =
     (if fst e = k then Some 0 else map_option Suc (get_idx_opt m k))"

definition get_idx :: "('k, 'v) VecMap \<Rightarrow> 'k \<Rightarrow> abort + nat" where
  "get_idx m k =
     (case get_idx_opt m k of None \<Rightarrow> Inl (Abort M_vec_map 1) | Some i \<Rightarrow> Inr i)"

definition vec_map_contains :: "('k, 'v) VecMap \<Rightarrow> 'k \<Rightarrow> bool" where
  "vec_map_contains m k = (get_idx_opt m k \<noteq> None)"

definition vec_map_insert :: "('k, 'v) VecMap \<Rightarrow> 'k \<Rightarrow> 'v \<Rightarrow> abort + ('k, 'v) VecMap" where
  "vec_map_insert m k v =
     (if vec_map_contains m k then Inl (Abort M_vec_map 0) else Inr (m @ [(k, v)]))"

definition vec_map_get :: "('k, 'v) VecMap \<Rightarrow> 'k \<Rightarrow> abort + 'v" where
  "vec_map_get m k =
     (case get_idx m k of Inl e \<Rightarrow> Inl e | Inr i \<Rightarrow> Inr (snd (m ! i)))"

definition vec_map_try_get :: "('k, 'v) VecMap \<Rightarrow> 'k \<Rightarrow> 'v option" where
  "vec_map_try_get m k =
     (if vec_map_contains m k
      then (case vec_map_get m k of Inl e \<Rightarrow> None | Inr v \<Rightarrow> Some v) else None)"

type_synonym ('k, 'v) Bag = "'k \<rightharpoonup> 'v"

definition bag_add :: "('k, 'v) Bag \<Rightarrow> 'k \<Rightarrow> 'v \<Rightarrow> abort + ('k, 'v) Bag" where
  "bag_add b k v =
     (case b k of Some old \<Rightarrow> Inl (Abort M_dynamic_field 0) | None \<Rightarrow> Inr (b(k \<mapsto> v)))"

definition bag_remove :: "('k, 'v) Bag \<Rightarrow> 'k \<Rightarrow> abort + ('v \<times> ('k, 'v) Bag)" where
  "bag_remove b k =
     (case b k of None \<Rightarrow> Inl (Abort M_dynamic_field 1) | Some v \<Rightarrow> Inr (v, b(k := None)))"

definition bag_borrow_mut :: "('k, 'v) Bag \<Rightarrow> 'k \<Rightarrow> abort + 'v" where
  "bag_borrow_mut b k =
     (case b k of None \<Rightarrow> Inl (Abort M_dynamic_field 1) | Some v \<Rightarrow> Inr v)"

section \<open>Committee\<close>

record BridgeCommittee =
  pub_keys :: "(bytes, u64) VecMap"
  thresholds :: "(u8, u64) VecMap"

text \<open>
  The loop of \<open>verify_signatures\<close> (lines 70-82), with its variables \<open>i\<close>,
  \<open>seen_pub_key\<close> and \<open>threshold\<close> as arguments; it returns the accumulated
  \<open>threshold\<close>. The native \<open>ecdsa_k1::secp256k1_ecrecover\<close> (with its hash argument 0)
  is the parameter \<open>ecrecover\<close>: from a signature and the message bytes it gives the
  recovered public key or aborts.
\<close>

function verify_loop ::
  "(bytes \<Rightarrow> bytes \<Rightarrow> abort + bytes) \<Rightarrow> BridgeCommittee \<Rightarrow> bytes \<Rightarrow> bytes list
     \<Rightarrow> nat \<Rightarrow> bytes VecSet \<Rightarrow> u64 \<Rightarrow> abort + u64" where
  "verify_loop ecrecover self message_bytes signatures i seen_pub_key threshold =
     (if vec_set_size seen_pub_key < length signatures then
        (case vector_borrow signatures i of
           Inl e \<Rightarrow> Inl e
         | Inr signature \<Rightarrow>
        (case ecrecover signature message_bytes of
           Inl e \<Rightarrow> Inl e
         | Inr pubkey \<Rightarrow>
             if vec_set_contains seen_pub_key pubkey then Inl EDuplicatedSignature
             else if \<not> vec_map_contains (pub_keys self) pubkey then Inl EInvalidSignature
             else
        (case vec_map_get (pub_keys self) pubkey of
           Inl e \<Rightarrow> Inl e
         | Inr weight \<Rightarrow>
        (case u64_add threshold weight of
           Inl e \<Rightarrow> Inl e
         | Inr threshold' \<Rightarrow>
        (case vec_set_insert seen_pub_key pubkey of
           Inl e \<Rightarrow> Inl e
         | Inr seen_pub_key' \<Rightarrow>
             verify_loop ecrecover self message_bytes signatures (i + 1) seen_pub_key'
               threshold')))))
      else Inr threshold)"
  by pat_completeness auto
termination
  by (relation "measure (\<lambda>(ecrecover, self, message_bytes, signatures, i, seen_pub_key, threshold).
        length signatures - length seen_pub_key)")
     (auto simp: vec_set_insert_def vec_set_size_def split: if_splits)

text \<open>
  \<open>verify_signatures\<close> (lines 56-84). \<open>message::message_type\<close> reads the type of the
  message; \<open>message::serialise_message\<close>, defined outside the sources at hand, is
  the parameter \<open>serialise_message\<close>. Success is \<open>Inr ()\<close>.
\<close>

definition verify_signatures ::
  "(bytes \<Rightarrow> bytes \<Rightarrow> abort + bytes) \<Rightarrow> (BridgeMessage \<Rightarrow> bytes)
     \<Rightarrow> BridgeCommittee \<Rightarrow> BridgeMessage \<Rightarrow> bytes list \<Rightarrow> abort + unit" where
  "verify_signatures ecrecover serialise_message self message signatures =
     (case vec_map_get (thresholds self) (messageType message) of
        Inl e \<Rightarrow> Inl e
      | Inr required_threshold \<Rightarrow>
          let message_bytes = SUI_MESSAGE_PREFIX @ serialise_message message in
          (case verify_loop ecrecover self message_bytes signatures 0 [] 0 of
             Inl e \<Rightarrow> Inl e
           | Inr threshold \<Rightarrow>
               if threshold \<ge> required_threshold then Inr ()
               else Inl ESignatureBelowThreshold))"

text \<open>
  The weight the committee gives a public key (0 for a key outside the committee),
  and the errors the committee module declares.
\<close>

definition weight_of :: "BridgeCommittee \<Rightarrow> bytes \<Rightarrow> u64" where
  "weight_of self k = (case vec_map_try_get (pub_keys self) k of None \<Rightarrow> 0 | Some w \<Rightarrow> w)"

definition committee_errors :: "abort list" where
  "committee_errors =
     [ESignatureBelowThreshold, EDuplicatedSignature, EInvalidSignature, ENotSystemAddress]"

text \<open>
  The committee of the module's tests, \<open>setup_test\<close> (lines 163-184): two members of
  weight 100 each and the threshold 200 for the token message type. The constant
  \<open>message_types::token()\<close>, defined outside the sources at hand, is the parameter.
\<close>

definition member_A :: bytes where
  "member_A =
     [0x02, 0x9b, 0xef, 0x8d, 0x55, 0x6d, 0x80, 0xe4, 0x3a, 0xe7, 0xe0,
      0xbe, 0xcb, 0x3a, 0x7e, 0x68, 0x38, 0xb9, 0x5d, 0xef, 0xe4, 0x58,
      0x96, 0xed, 0x60, 0x75, 0xbb, 0x90, 0x35, 0xd0, 0x6c, 0x99, 0x64]"

definition member_B :: bytes where
  "member_B =
     [0x03, 0x3e, 0x99, 0xa5, 0x41, 0xdb, 0x69, 0xbd, 0x32, 0x04, 0x0d,
      0xfe, 0x50, 0x37, 0xfb, 0xf5, 0x21, 0x0d, 0xaf, 0xa8, 0x15, 0x1a,
      0x71, 0xe2, 0x1c, 0x52, 0x04, 0xb0, 0x5d, 0x95, 0xce, 0x0a, 0x62]"

definition setup_test :: "u8 \<Rightarrow> BridgeCommittee" where
  "setup_test token =
     \<lparr> pub_keys = [(member_A, 100), (member_B, 100)], thresholds = [(token, 200)] \<rparr>"

text \<open>
  \<open>create\<close> of the committee module (lines 31-54), the only constructor outside the
  tests: the sender must be the system address \<open>@0x0\<close>; the genesis committee has
  the same two members with the weight 10 each and the threshold 10 for the token
  message type.
\<close>

definition committee_create :: "address \<Rightarrow> u8 \<Rightarrow> abort + BridgeCommittee" where
  "committee_create sender token =
     (if sender \<noteq> 0 then Inl ENotSystemAddress
      else Inr \<lparr> pub_keys = [(member_A, 10), (member_B, 10)], thresholds = [(token, 10)] \<rparr>)"

text \<open>
  What the committees the module builds have in common: the weights of all members
  together fit a \<open>u64\<close>, and every configured threshold is positive.
\<close>

definition total_weight :: "BridgeCommittee \<Rightarrow> nat" where
  "total_weight self = (\<Sum>e\<leftarrow>pub_keys self. unat (snd e))"

definition committee_wf :: "BridgeCommittee \<Rightarrow> bool" where
  "committee_wf self =
     (total_weight self < 2 ^ 64 \<and> list_all (\<lambda>e. 0 < snd e) (thresholds self))"

section \<open>Treasury\<close>

text \<open>
  A type parameter \<open>T\<close> of the Move functions is passed as the value that
  \<open>type_name::get<T>()\<close> gives for it: the address of the package that defines the
  type (what \<open>type_name::get_address\<close> reads and \<open>address::from_ascii_bytes\<close> parses),
  the module and the name of the struct. \<open>type_name::into_string\<close> is the canonical
  text: 64 hexadecimal digits, the module and the name.
\<close>

record TypeName =
  get_address :: address
  get_module :: string
  get_name :: string

definition hex_digit :: "nat \<Rightarrow> char" where
  "hex_digit n = ''0123456789abcdef'' ! (n mod 16)"

definition into_string :: "TypeName \<Rightarrow> string" where
  "into_string t =
     map (\<lambda>i. hex_digit (unat (drop_bit (4 * (63 - i)) (get_address t)))) [0..<64]
       @ ''::'' @ get_module t @ ''::'' @ get_name t"

text \<open>
  Modelled from the spec: \<open>sui::coin\<close>, \<open>sui::balance\<close>, \<open>sui::package\<close> and
  \<open>sui::math\<close> lie outside the sources at hand. A treasury cap holds the total supply
  minted under it, a coin its value, an upgrade cap the address of the package it
  upgrades, the coin metadata the decimals. Minting adds the amount to the supply and
  returns a coin of that amount, burning takes the value of the coin off the supply;
  both abort where the \<open>u64\<close> supply would leave its range. \<open>math::pow\<close> is the power
  as a \<open>u64\<close> (the spec: \<open>decimalMultiplier = 10^decimals\<close>), aborting where it does
  not fit.
\<close>

record TreasuryCap =
  total_supply :: u64

record Coin =
  coin_value :: u64

record UpgradeCap =
  upgrade_package :: address

record CoinMetadata =
  get_decimals :: u8

definition coin_mint :: "TreasuryCap \<Rightarrow> u64 \<Rightarrow> abort + (TreasuryCap \<times> Coin)" where
  "coin_mint cap amount =
     (if unat amount < 18446744073709551615 - unat (total_supply cap)
      then Inr (cap\<lparr>total_supply := total_supply cap + amount\<rparr>, \<lparr>coin_value = amount\<rparr>)
      else Inl (Abort M_balance 1))"

definition coin_burn :: "TreasuryCap \<Rightarrow> Coin \<Rightarrow> abort + TreasuryCap" where
  "coin_burn cap c =
     (if total_supply cap \<ge> coin_value c
      then Inr (cap\<lparr>total_supply := total_supply cap - coin_value c\<rparr>)
      else Inl (Abort M_balance 1))"

definition math_pow :: "u64 \<Rightarrow> u8 \<Rightarrow> abort + u64" where
  "math_pow base exponent =
     (if unat base ^ unat exponent < 2 ^ 64 then Inr (base ^ unat exponent)
      else Inl ArithmeticError)"

text \<open>The structs of \<open>bridge::treasury\<close> (latest revision, lines 310-348).\<close>

record BridgeTokenMetadata =
  id' :: u8
  decimal_multiplier :: u64
  notional_value :: u64
  native_token :: bool

record ForeignTokenRegistration =
  type_name :: TypeName
  uc :: UpgradeCap
  decimal :: u8

record BridgeTreasury =
  treasuries :: "(TypeName, TreasuryCap) Bag"
  supported_tokens :: "(TypeName, BridgeTokenMetadata) VecMap"
  id_token_type_map :: "(u8, TypeName) VecMap"
  waiting_room :: "(string, ForeignTokenRegistration) Bag"

datatype event =
    UpdateTokenPriceEvent u8 u64
  | NewTokenEvent u8 TypeName bool
  | TokenRegistrationEvent TypeName u8 bool

text \<open>
  What a call does beyond the treasury: the events it emits and the objects it
  freezes with \<open>transfer::public_freeze_object\<close>, in the order of the calls. A call
  returns the treasury it leaves and these effects, or aborts; an abort undoes the
  whole transaction, so it carries no treasury.
\<close>

datatype effect = Emit event | Freeze UpgradeCap

text \<open>\<open>create\<close> (lines 415-422).\<close>

definition create :: BridgeTreasury where
  "create = \<lparr> treasuries = Map.empty, supported_tokens = [], id_token_type_map = [],
     waiting_room = Map.empty \<rparr>"

text \<open>\<open>register_foreign_token<T>\<close> (lines 350-370).\<close>

definition register_foreign_token ::
  "BridgeTreasury \<Rightarrow> TypeName \<Rightarrow> TreasuryCap \<Rightarrow> UpgradeCap \<Rightarrow> CoinMetadata
     \<Rightarrow> abort + (BridgeTreasury \<times> effect list)" where
  "register_foreign_token self T tc upgrade_cap metadata =
     (if total_supply tc \<noteq> 0 then Inl ETokenSupplyNonZero
      else
        let tn = T; coin_address = get_address tn in
        if upgrade_package upgrade_cap \<noteq> coin_address then Inl EInvalidUpgradeCap
        else
          let registration = \<lparr> type_name = tn, uc = upgrade_cap,
                                decimal = get_decimals metadata \<rparr> in
          (case bag_add (waiting_room self) (into_string tn) registration of
             Inl e \<Rightarrow> Inl e
           | Inr waiting_room' \<Rightarrow>
          (case bag_add (treasuries self) tn tc of
             Inl e \<Rightarrow> Inl e
           | Inr treasuries' \<Rightarrow>
               Inr (self\<lparr> treasuries := treasuries', waiting_room := waiting_room' \<rparr>,
                    [Emit (TokenRegistrationEvent tn (get_decimals metadata) False)]))))"

text \<open>\<open>approve_new_token\<close> (lines 387-413).\<close>

definition approve_new_token ::
  "BridgeTreasury \<Rightarrow> string \<Rightarrow> u8 \<Rightarrow> bool \<Rightarrow> u64 \<Rightarrow> abort + (BridgeTreasury \<times> effect list)" where
  "approve_new_token self token_name token_id is_native new_notional_value =
     (if \<not> is_native then
        (case bag_remove (waiting_room self) token_name of
           Inl e \<Rightarrow> Inl e
         | Inr (registration, waiting_room') \<Rightarrow>
        (case math_pow 10 (decimal registration) of
           Inl e \<Rightarrow> Inl e
         | Inr multiplier \<Rightarrow>
        (case vec_map_insert (supported_tokens self) (type_name registration)
                \<lparr> id' = token_id, decimal_multiplier = multiplier,
                  notional_value = new_notional_value, native_token = is_native \<rparr> of
           Inl e \<Rightarrow> Inl e
         | Inr supported_tokens' \<Rightarrow>
        (case vec_map_insert (id_token_type_map self) token_id (type_name registration) of
           Inl e \<Rightarrow> Inl e
         | Inr id_token_type_map' \<Rightarrow>
             Inr (self\<lparr> supported_tokens := supported_tokens',
                        id_token_type_map := id_token_type_map',
                        waiting_room := waiting_room' \<rparr>,
                  [Freeze (uc registration),
                   Emit (NewTokenEvent token_id (type_name registration) is_native)])))))
      else Inr (self, []))"

text \<open>
  \<open>burn<T>\<close> and \<open>mint<T>\<close> (lines 424-432): \<open>&mut self.treasuries[type_name::get<T>()]\<close>
  borrows the entry of the object bag mutably. The transaction context of \<open>mint\<close>
  only names the new coin object.
\<close>

definition burn :: "BridgeTreasury \<Rightarrow> TypeName \<Rightarrow> Coin \<Rightarrow> abort + BridgeTreasury" where
  "burn self T token =
     (case bag_borrow_mut (treasuries self) T of
        Inl e \<Rightarrow> Inl e
      | Inr treasury \<Rightarrow>
     (case coin_burn treasury token of
        Inl e \<Rightarrow> Inl e
      | Inr treasury' \<Rightarrow> Inr (self\<lparr> treasuries := (treasuries self)(T \<mapsto> treasury') \<rparr>)))"

definition mint :: "BridgeTreasury \<Rightarrow> TypeName \<Rightarrow> u64 \<Rightarrow> abort + (BridgeTreasury \<times> Coin)" where
  "mint self T amount =
     (case bag_borrow_mut (treasuries self) T of
        Inl e \<Rightarrow> Inl e
      | Inr treasury \<Rightarrow>
     (case coin_mint treasury amount of
        Inl e \<Rightarrow> Inl e
      | Inr (treasury', c) \<Rightarrow>
          Inr (self\<lparr> treasuries := (treasuries self)(T \<mapsto> treasury') \<rparr>, c)))"

text \<open>
  \<open>update_asset_notional_price\<close> (lines 434-445): \<open>get_mut\<close> finds the index of the
  entry and the assignment writes the field of the entry at that index.
\<close>

definition update_asset_notional_price ::
  "BridgeTreasury \<Rightarrow> u8 \<Rightarrow> u64 \<Rightarrow> abort + (BridgeTreasury \<times> effect list)" where
  "update_asset_notional_price self token_id new_usd_price =
     (case vec_map_try_get (id_token_type_map self) token_id of
        None \<Rightarrow> Inl EUnsupportedTokenType
      | Some tn \<Rightarrow>
     (case get_idx (supported_tokens self) tn of
        Inl e \<Rightarrow> Inl e
      | Inr idx \<Rightarrow>
          let metadata = snd (supported_tokens self ! idx) in
          Inr (self\<lparr> supported_tokens :=
                 (supported_tokens self)[idx := (fst (supported_tokens self ! idx),
                    metadata\<lparr>notional_value := new_usd_price\<rparr>)] \<rparr>,
               [Emit (UpdateTokenPriceEvent token_id new_usd_price)])))"

text \<open>
  The state a call leaves: an abort rolls the transaction back, so the treasury is
  the one before the call.
\<close>

definition after_call :: "BridgeTreasury \<Rightarrow> abort + (BridgeTreasury \<times> 'a) \<Rightarrow> BridgeTreasury" where
  "after_call self r = (case r of Inl e \<Rightarrow> self | Inr (self', out) \<Rightarrow> self')"

text \<open>
  The treasury of the tests, \<open>mock_for_test\<close> (lines 463-497): the value the inserts
  into the empty treasury build. The test structs \<open>BTC\<close>, \<open>ETH\<close>, \<open>USDC\<close> and
  \<open>USDT\<close> are declared in the module \<open>treasury\<close> of the bridge package,
  published at the address \<open>0xb\<close>.
\<close>

definition USD_VALUE_MULTIPLIER :: u64 where
  "USD_VALUE_MULTIPLIER = 10000"

definition test_type :: "string \<Rightarrow> TypeName" where
  "test_type n = \<lparr> get_address = 0xb, get_module = ''treasury'', get_name = n \<rparr>"

definition BTC :: TypeName where
  "BTC = test_type ''BTC''"

definition ETH :: TypeName where
  "ETH = test_type ''ETH''"

definition USDC :: TypeName where
  "USDC = test_type ''USDC''"

definition USDT :: TypeName where
  "USDT = test_type ''USDT''"

definition mock_for_test :: BridgeTreasury where
  "mock_for_test =
     create\<lparr>
       supported_tokens :=
         [(BTC, \<lparr> id' = 1, decimal_multiplier = 100000000,
                  notional_value = 50000 * USD_VALUE_MULTIPLIER, native_token = False \<rparr>),
          (ETH, \<lparr> id' = 2, decimal_multiplier = 100000000,
                  notional_value = 3000 * USD_VALUE_MULTIPLIER, native_token = False \<rparr>),
          (USDC, \<lparr> id' = 3, decimal_multiplier = 1000000,
                   notional_value = USD_VALUE_MULTIPLIER, native_token = False \<rparr>),
          (USDT, \<lparr> id' = 4, decimal_multiplier = 1000000,
                   notional_value = USD_VALUE_MULTIPLIER, native_token = False \<rparr>)],
       id_token_type_map := [(1, BTC), (2, ETH), (3, USDC), (4, USDT)] \<rparr>"

text \<open>
  The treasuries the module can produce: the empty one of \<open>create\<close> or the one of the
  tests, changed by calls that do not abort.
\<close>

inductive reachable :: "BridgeTreasury \<Rightarrow> bool" where
  reach_create: "reachable create"
| reach_mock: "reachable mock_for_test"
| reach_register:
    "reachable self \<Longrightarrow> register_foreign_token self T tc upgrade_cap metadata = Inr (self', fx)
       \<Longrightarrow> reachable self'"
| reach_approve:
    "reachable self \<Longrightarrow> approve_new_token self token_name token_id is_native nv = Inr (self', fx)
       \<Longrightarrow> reachable self'"
| reach_burn: "reachable self \<Longrightarrow> burn self T token = Inr self' \<Longrightarrow> reachable self'"
| reach_mint: "reachable self \<Longrightarrow> mint self T amount = Inr (self', c) \<Longrightarrow> reachable self'"
| reach_update:
    "reachable self \<Longrightarrow> update_asset_notional_price self token_id price = Inr (self', fx)
       \<Longrightarrow> reachable self'"

text \<open>
  The invariant that links the two maps of the treasury: every token id is mapped to
  a type that has an entry in \<open>supported_tokens\<close>.
\<close>

definition id_map_supported :: "BridgeTreasury \<Rightarrow> bool" where
  "id_map_supported self =
     list_all (\<lambda>e. vec_map_contains (supported_tokens self) (snd e)) (id_token_type_map self)"

text \<open>
  Foreign coins for the scenarios: the bridged \<open>USDC\<close> of the module \<open>usdc\<close> of
  the bridge package, created with 6 decimals, and a \<open>USDT\<close> beside it; a treasury
  cap before any mint, the upgrade cap of the package, and the treasury after the
  registration of \<open>USDC\<close>.
\<close>

definition usdc_coin :: TypeName where
  "usdc_coin = \<lparr> get_address = 0xb, get_module = ''usdc'', get_name = ''USDC'' \<rparr>"

definition usdt_coin :: TypeName where
  "usdt_coin = \<lparr> get_address = 0xb, get_module = ''usdt'', get_name = ''USDT'' \<rparr>"

definition fresh_cap :: TreasuryCap where
  "fresh_cap = \<lparr> total_supply = 0 \<rparr>"

definition bridge_upgrade_cap :: UpgradeCap where
  "bridge_upgrade_cap = \<lparr> upgrade_package = 0xb \<rparr>"

definition usdc_registered :: BridgeTreasury where
  "usdc_registered =
     after_call create
       (register_foreign_token create usdc_coin fresh_cap bridge_upgrade_cap
          \<lparr> get_decimals = 6 \<rparr>)"

section \<open>Committee: signature verification\<close>

declare verify_loop.simps [simp del]

lemma get_idx_opt_None: "get_idx_opt m k = None \<longleftrightarrow> k \<notin> fst ` set m"
  by (induction m) auto

lemma get_idx_opt_Some:
  "get_idx_opt m k = Some i \<Longrightarrow> i < length m \<and> fst (m ! i) = k \<and> map_of m k = Some (snd (m ! i))"
  by (induction m arbitrary: i) (auto split: if_splits)

lemma get_idx_opt_map_of: "get_idx_opt m k = None \<longleftrightarrow> map_of m k = None"
  by (simp add: get_idx_opt_None map_of_eq_None_iff)

lemma vec_map_contains_map_of: "vec_map_contains m k \<longleftrightarrow> map_of m k \<noteq> None"
  by (simp add: vec_map_contains_def get_idx_opt_map_of)

lemma vec_map_get_map_of:
  "vec_map_get m k = (case map_of m k of None \<Rightarrow> Inl (Abort M_vec_map 1) | Some v \<Rightarrow> Inr v)"
proof (cases "get_idx_opt m k")
  case None
  moreover from None have "map_of m k = None"
    by (simp add: get_idx_opt_map_of)
  ultimately show ?thesis
    by (simp add: vec_map_get_def get_idx_def)
next
  case (Some i)
  then show ?thesis
    using get_idx_opt_Some [OF Some] by (simp add: vec_map_get_def get_idx_def)
qed

lemma vec_map_try_get_map_of: "vec_map_try_get m k = map_of m k"
  by (auto simp: vec_map_try_get_def vec_map_contains_map_of vec_map_get_map_of split: option.splits)

lemma nth_notin_take: "distinct xs \<Longrightarrow> i < length xs \<Longrightarrow> xs ! i \<notin> set (take i xs)"
proof (induction xs arbitrary: i)
  case Nil
  then show ?case by simp
next
  case (Cons x xs)
  show ?case
  proof (cases i)
    case 0
    then show ?thesis by simp
  next
    case (Suc j)
    with Cons show ?thesis by (auto dest: in_set_takeD)
  qed
qed

lemma verify_loop_prefix:
  assumes len: "length keys \<le> length sigs"
    and rec: "\<forall>j < length keys. ecrecover (sigs ! j) mb = Inr (keys ! j)"
    and dist: "distinct keys"
    and mem: "\<forall>k \<in> set keys. vec_map_contains (pub_keys c) k"
    and i: "i \<le> length keys"
    and fit: "unat th + (\<Sum>k\<leftarrow>drop i keys. unat (weight_of c k)) < 2 ^ 64"
  shows "\<exists>th'. verify_loop ecrecover c mb sigs i (take i keys) th
             = verify_loop ecrecover c mb sigs (length keys) keys th'
           \<and> unat th' = unat th + (\<Sum>k\<leftarrow>drop i keys. unat (weight_of c k))"
  using i fit
proof (induction "length keys - i" arbitrary: i th)
  case 0
  then show ?case by (intro exI [of _ th]) simp
next
  case (Suc n)
  from Suc.hyps(2) have ilt: "i < length keys" by simp
  have ki: "ecrecover (sigs ! i) mb = Inr (keys ! i)"
    using rec ilt by simp
  have notseen: "keys ! i \<notin> set (take i keys)"
    using dist ilt by (rule nth_notin_take)
  have member: "vec_map_contains (pub_keys c) (keys ! i)"
    using mem ilt by simp
  then obtain w where w: "map_of (pub_keys c) (keys ! i) = Some w"
    by (auto simp: vec_map_contains_map_of)
  then have wo: "weight_of c (keys ! i) = w"
    by (simp add: weight_of_def vec_map_try_get_map_of)
  have dr: "drop i keys = keys ! i # drop (Suc i) keys"
    using ilt by (simp add: Cons_nth_drop_Suc)
  have fit1: "unat th + unat w < 2 ^ 64"
    using Suc.prems(2) by (simp add: dr wo)
  then have un: "unat (th + w) = unat th + unat w"
    by (simp add: unat_add_lem [THEN iffD1])
  have fit2: "unat (th + w) + (\<Sum>k\<leftarrow>drop (Suc i) keys. unat (weight_of c k)) < 2 ^ 64"
    using Suc.prems(2) by (simp add: dr wo un)
  have n: "n = length keys - Suc i" using Suc.hyps(2) by simp
  from Suc.hyps(1) [OF n _ fit2] ilt
  obtain th' where th': "verify_loop ecrecover c mb sigs (Suc i) (take (Suc i) keys) (th + w)
       = verify_loop ecrecover c mb sigs (length keys) keys th'"
    "unat th' = unat (th + w) + (\<Sum>k\<leftarrow>drop (Suc i) keys. unat (weight_of c k))"
    by auto
  have step: "verify_loop ecrecover c mb sigs i (take i keys) th
      = verify_loop ecrecover c mb sigs (Suc i) (take (Suc i) keys) (th + w)"
    using ilt len ki notseen member w fit1
    by (subst verify_loop.simps)
       (simp add: vec_set_size_def vector_borrow_def vec_set_contains_def vec_map_get_map_of
          u64_add_def vec_set_insert_def take_Suc_conv_app_nth)
  show ?case
    using th' by (intro exI [of _ th']) (simp add: step dr wo un)
qed

lemma verify_loop_from_start:
  assumes "length keys \<le> length sigs"
    and "\<forall>j < length keys. ecrecover (sigs ! j) mb = Inr (keys ! j)"
    and "distinct keys"
    and "\<forall>k \<in> set keys. vec_map_contains (pub_keys c) k"
    and "(\<Sum>k\<leftarrow>keys. unat (weight_of c k)) < 2 ^ 64"
  shows "\<exists>th'. verify_loop ecrecover c mb sigs 0 [] 0
             = verify_loop ecrecover c mb sigs (length keys) keys th'
           \<and> unat th' = (\<Sum>k\<leftarrow>keys. unat (weight_of c k))"
  using verify_loop_prefix [where keys = keys and sigs = sigs and ecrecover = ecrecover
      and mb = mb and c = c and i = 0 and th = 0] assms
  by simp

lemma verify_loop_success:
  assumes "verify_loop ecrecover c mb sigs i seen th = Inr th'"
    and "i = length seen"
  shows "\<exists>rest. length seen + length rest = max (length seen) (length sigs)
           \<and> (\<forall>j < length rest. ecrecover (sigs ! (i + j)) mb = Inr (rest ! j))
           \<and> set rest \<inter> set seen = {} \<and> distinct rest
           \<and> (\<forall>k \<in> set rest. vec_map_contains (pub_keys c) k)"
  using assms
proof (induction ecrecover c mb sigs i seen th rule: verify_loop.induct)
  case (1 ecrecover self message_bytes signatures i seen_pub_key threshold)
  show ?case
  proof (cases "vec_set_size seen_pub_key < length signatures")
    case False
    then show ?thesis
      by (intro exI [of _ "[]"]) (simp add: vec_set_size_def max_def)
  next
    case True
    from "1.prems"(1) True obtain pubkey weight threshold' where
      b: "vector_borrow signatures i = Inr (signatures ! i)"
      and r: "ecrecover (signatures ! i) message_bytes = Inr pubkey"
      and ns: "\<not> vec_set_contains seen_pub_key pubkey"
      and m: "vec_map_contains (pub_keys self) pubkey"
      and g: "vec_map_get (pub_keys self) pubkey = Inr weight"
      and a: "u64_add threshold weight = Inr threshold'"
      and ins: "vec_set_insert seen_pub_key pubkey = Inr (seen_pub_key @ [pubkey])"
      and rec: "verify_loop ecrecover self message_bytes signatures (i + 1)
                  (seen_pub_key @ [pubkey]) threshold' = Inr th'"
      by (subst (asm) verify_loop.simps)
         (auto simp: vector_borrow_def vec_set_insert_def split: if_splits sum.splits)
    have "\<exists>rest. length (seen_pub_key @ [pubkey]) + length rest
              = max (length (seen_pub_key @ [pubkey])) (length signatures)
           \<and> (\<forall>j < length rest. ecrecover (signatures ! (i + 1 + j)) message_bytes = Inr (rest ! j))
           \<and> set rest \<inter> set (seen_pub_key @ [pubkey]) = {} \<and> distinct rest
           \<and> (\<forall>k \<in> set rest. vec_map_contains (pub_keys self) k)"
      using "1.IH" [OF True b r _ _ g a ins rec] ns m "1.prems"(2)
      by (simp add: vec_set_contains_def)
    then obtain rest where rest:
      "length (seen_pub_key @ [pubkey]) + length rest
              = max (length (seen_pub_key @ [pubkey])) (length signatures)"
      "\<forall>j < length rest. ecrecover (signatures ! (i + 1 + j)) message_bytes = Inr (rest ! j)"
      "set rest \<inter> set (seen_pub_key @ [pubkey]) = {}" "distinct rest"
      "\<forall>k \<in> set rest. vec_map_contains (pub_keys self) k"
      by blast
    show ?thesis
    proof (intro exI [of _ "pubkey # rest"] conjI)
      show "length seen_pub_key + length (pubkey # rest) = max (length seen_pub_key) (length signatures)"
        using rest(1) True by (simp add: vec_set_size_def max_def)
      show "\<forall>j<length (pubkey # rest). ecrecover (signatures ! (i + j)) message_bytes = Inr ((pubkey # rest) ! j)"
        using rest(2) r by (auto simp: nth_Cons split: nat.splits)
      show "set (pubkey # rest) \<inter> set seen_pub_key = {}"
        using rest(3) ns by (auto simp: vec_set_contains_def)
      show "distinct (pubkey # rest)"
        using rest(3,4) by auto
      show "\<forall>k\<in>set (pubkey # rest). vec_map_contains (pub_keys self) k"
        using rest(5) m by simp
    qed
  qed
qed


lemma verify_signatures_valid_list:
  assumes thr: "vec_map_try_get (thresholds c) (messageType m) = Some t"
    and rec: "map (\<lambda>s. ecrecover s (SUI_MESSAGE_PREFIX @ ser m)) sigs = map Inr keys"
    and dist: "distinct keys"
    and mem: "\<forall>k \<in> set keys. vec_map_contains (pub_keys c) k"
    and fit: "(\<Sum>k\<leftarrow>keys. unat (weight_of c k)) < 2 ^ 64"
  shows "verify_signatures ecrecover ser c m sigs
           = (if unat t \<le> (\<Sum>k\<leftarrow>keys. unat (weight_of c k)) then Inr ()
              else Inl ESignatureBelowThreshold)"
proof -
  let ?mb = "SUI_MESSAGE_PREFIX @ ser m"
  have len: "length keys = length sigs"
    using rec by (metis length_map)
  have recj: "\<forall>j < length keys. ecrecover (sigs ! j) ?mb = Inr (keys ! j)"
    using rec len by (metis nth_map)
  from verify_loop_from_start [where keys = keys and sigs = sigs and ecrecover = ecrecover
      and mb = ?mb and c = c] recj dist mem fit len
  obtain th' where th': "verify_loop ecrecover c ?mb sigs 0 [] 0
        = verify_loop ecrecover c ?mb sigs (length keys) keys th'"
      "unat th' = (\<Sum>k\<leftarrow>keys. unat (weight_of c k))"
    by auto
  have fin: "verify_loop ecrecover c ?mb sigs (length keys) keys th' = Inr th'"
    using len by (subst verify_loop.simps) (simp add: vec_set_size_def)
  have get: "vec_map_get (thresholds c) (messageType m) = Inr t"
    using thr by (simp add: vec_map_try_get_map_of vec_map_get_map_of)
  show ?thesis
    using th' fin get by (simp add: verify_signatures_def word_le_nat_alt)
qed


lemma sum_list_single_key:
  "distinct ks \<Longrightarrow> (\<Sum>k\<leftarrow>ks. if k = k0 then (w::nat) else 0) \<le> w"
proof (induction ks)
  case Nil
  show ?case by simp
next
  case (Cons x ks)
  show ?case
  proof (cases "x = k0")
    case True
    with Cons.prems have "k0 \<notin> set ks" by simp
    then have "(\<Sum>k\<leftarrow>ks. if k = k0 then w else 0) = 0"
      by (induction ks) auto
    with True show ?thesis by simp
  next
    case False
    with Cons show ?thesis by simp
  qed
qed

lemma weights_le_total:
  "distinct ks \<Longrightarrow>
     (\<Sum>k\<leftarrow>ks. case map_of m k of None \<Rightarrow> 0 | Some w \<Rightarrow> unat w) \<le> (\<Sum>e\<leftarrow>m. unat (snd e))"
proof (induction m)
  case Nil
  show ?case by simp
next
  case (Cons e m)
  let ?f = "\<lambda>k. case map_of (e # m) k of None \<Rightarrow> 0 | Some w \<Rightarrow> unat w"
  let ?g = "\<lambda>k. if k = fst e then unat (snd e) else 0"
  let ?h = "\<lambda>k. case map_of m k of None \<Rightarrow> 0 | Some w \<Rightarrow> unat w"
  have "(\<Sum>k\<leftarrow>ks. ?f k) \<le> (\<Sum>k\<leftarrow>ks. ?g k + ?h k)"
    by (rule sum_list_mono) (cases e, simp)
  also have "\<dots> = (\<Sum>k\<leftarrow>ks. ?g k) + (\<Sum>k\<leftarrow>ks. ?h k)"
    by (simp add: sum_list_addf)
  also have "\<dots> \<le> unat (snd e) + (\<Sum>e\<leftarrow>m. unat (snd e))"
    using sum_list_single_key [OF Cons.prems, of "fst e" "unat (snd e)"] Cons.IH [OF Cons.prems]
    by (rule add_mono)
  finally show ?case by simp
qed

lemma signer_weights_fit:
  assumes "committee_wf c" and "distinct keys"
  shows "(\<Sum>k\<leftarrow>keys. unat (weight_of c k)) < 2 ^ 64"
proof -
  have "unat (weight_of c k) = (case map_of (pub_keys c) k of None \<Rightarrow> 0 | Some w \<Rightarrow> unat w)" for k
    by (simp add: weight_of_def vec_map_try_get_map_of split: option.splits)
  then have "(\<Sum>k\<leftarrow>keys. unat (weight_of c k)) \<le> total_weight c"
    using weights_le_total [OF assms(2), of "pub_keys c"] by (simp add: total_weight_def)
  with assms(1) show ?thesis by (simp add: committee_wf_def)
qed

lemma verify_signatures_accepts_valid_only:
  assumes ok: "verify_signatures ecrecover ser c m sigs = Inr ()"
  shows "\<exists>keys. map (\<lambda>s. ecrecover s (SUI_MESSAGE_PREFIX @ ser m)) sigs = map Inr keys
           \<and> distinct keys \<and> (\<forall>k \<in> set keys. vec_map_contains (pub_keys c) k)"
proof -
  let ?mb = "SUI_MESSAGE_PREFIX @ ser m"
  from ok obtain th' where "verify_loop ecrecover c ?mb sigs 0 [] 0 = Inr th'"
    by (auto simp: verify_signatures_def Let_def split: sum.splits if_splits)
  from verify_loop_success [OF this]
  obtain rest where rest: "length rest = length sigs"
    "\<forall>j < length rest. ecrecover (sigs ! j) ?mb = Inr (rest ! j)" "distinct rest"
    "\<forall>k \<in> set rest. vec_map_contains (pub_keys c) k"
    by auto
  have "map (\<lambda>s. ecrecover s ?mb) sigs = map Inr rest"
    using rest(1,2) by (simp add: list_eq_iff_nth_eq)
  with rest(3,4) show ?thesis by blast
qed

text \<open>
  C2. For a committee as the module builds them (the weights of the members together
  fit a \<open>u64\<close>, the thresholds are positive) and a message whose type has the
  threshold \<open>t\<close>, \<open>verify_signatures\<close> succeeds exactly when every signature recovers
  to a public key of a committee member, no two signatures recover to the same key, and
  the sum of the weights of these keys is at least \<open>t\<close> (equality is enough). When
  all signatures recover to distinct members and the sum is below \<open>t\<close>, it aborts with
  \<open>ESignatureBelowThreshold\<close>; so does the empty list of signatures, whose accumulated
  weight is 0.
\<close>

theorem verify_signatures_threshold:
  assumes wf: "committee_wf c"
    and thr: "vec_map_try_get (thresholds c) (messageType m) = Some t"
  shows "(verify_signatures ecrecover ser c m sigs = Inr () \<longleftrightarrow>
            (\<exists>keys. map (\<lambda>s. ecrecover s (SUI_MESSAGE_PREFIX @ ser m)) sigs = map Inr keys
               \<and> distinct keys \<and> (\<forall>k \<in> set keys. vec_map_contains (pub_keys c) k)
               \<and> unat t \<le> (\<Sum>k\<leftarrow>keys. unat (weight_of c k))))
         \<and> (\<forall>keys. map (\<lambda>s. ecrecover s (SUI_MESSAGE_PREFIX @ ser m)) sigs = map Inr keys
               \<and> distinct keys \<and> (\<forall>k \<in> set keys. vec_map_contains (pub_keys c) k)
               \<and> (\<Sum>k\<leftarrow>keys. unat (weight_of c k)) < unat t
             \<longrightarrow> verify_signatures ecrecover ser c m sigs = Inl ESignatureBelowThreshold)
         \<and> (sigs = [] \<longrightarrow>
              verify_signatures ecrecover ser c m sigs = Inl ESignatureBelowThreshold)"
proof -
  let ?mb = "SUI_MESSAGE_PREFIX @ ser m"
  let ?valid = "\<lambda>keys. map (\<lambda>s. ecrecover s ?mb) sigs = map Inr keys
               \<and> distinct keys \<and> (\<forall>k \<in> set keys. vec_map_contains (pub_keys c) k)"
  let ?sum = "\<lambda>keys. (\<Sum>k\<leftarrow>keys. unat (weight_of c k))"
  have run: "verify_signatures ecrecover ser c m sigs
           = (if unat t \<le> ?sum keys then Inr () else Inl ESignatureBelowThreshold)"
    if "?valid keys" for keys
    using that verify_signatures_valid_list [OF thr _ _ _ signer_weights_fit [OF wf], of ecrecover ser sigs keys]
    by blast
  have accept: "verify_signatures ecrecover ser c m sigs = Inr () \<longleftrightarrow>
        (\<exists>keys. ?valid keys \<and> unat t \<le> ?sum keys)"
  proof
    assume ok: "verify_signatures ecrecover ser c m sigs = Inr ()"
    from verify_signatures_accepts_valid_only [OF ok]
    obtain keys where keys: "?valid keys" by blast
    from run [OF keys] ok have "unat t \<le> ?sum keys"
      by (simp split: if_splits)
    with keys show "\<exists>keys. ?valid keys \<and> unat t \<le> ?sum keys" by blast
  next
    assume "\<exists>keys. ?valid keys \<and> unat t \<le> ?sum keys"
    then obtain keys where "?valid keys" "unat t \<le> ?sum keys" by blast
    with run [of keys] show "verify_signatures ecrecover ser c m sigs = Inr ()" by simp
  qed
  have below: "verify_signatures ecrecover ser c m sigs = Inl ESignatureBelowThreshold"
    if "?valid keys \<and> ?sum keys < unat t" for keys
    using that run [of keys] by simp
  have "(messageType m, t) \<in> set (thresholds c)"
    using thr by (simp add: vec_map_try_get_map_of map_of_SomeD)
  with wf have pos: "0 < unat t"
    by (auto simp: committee_wf_def list_all_iff unat_gt_0 word_neq_0_conv)
  have empty: "verify_signatures ecrecover ser c m sigs = Inl ESignatureBelowThreshold"
    if "sigs = []"
    using that pos below [of "[]"] by simp
  from accept below empty show ?thesis by blast
qed

text \<open>
  C4. For a message whose type has no entry in \<open>thresholds\<close>, \<open>verify_signatures\<close>
  fails whatever the signatures are: \<open>vec_map::get\<close> aborts on the missing key with
  its own code, before any signature is looked at, and the message is never accepted.
\<close>

theorem verify_signatures_no_threshold:
  assumes "\<not> vec_map_contains (thresholds c) (messageType m)"
  shows "verify_signatures ecrecover ser c m sigs = Inl (Abort M_vec_map 1)
         \<and> verify_signatures ecrecover ser c m sigs \<noteq> Inr ()"
  using assms
  by (simp add: verify_signatures_def vec_map_get_map_of vec_map_contains_map_of)

text \<open>
  C3. If two signatures of the list, at the positions \<open>p < q\<close>, recover to the same
  public key, \<open>verify_signatures\<close> never succeeds, so the weight of a repeated signer
  is never counted twice. The abort is \<open>EDuplicatedSignature\<close>, raised in the loop
  before the threshold is compared, when the type of the message has a threshold and
  the signatures before position \<open>q\<close> recover to distinct committee members whose
  weights fit a \<open>u64\<close> (so \<open>q\<close> is the first repeat and nothing fails before it).
\<close>

theorem verify_signatures_duplicate:
  assumes pq: "p < q" "q < length sigs"
    and kp: "ecrecover (sigs ! p) (SUI_MESSAGE_PREFIX @ ser m) = Inr k"
    and kq: "ecrecover (sigs ! q) (SUI_MESSAGE_PREFIX @ ser m) = Inr k"
  shows "verify_signatures ecrecover ser c m sigs \<noteq> Inr ()
         \<and> (vec_map_contains (thresholds c) (messageType m)
              \<and> (\<exists>keys. map (\<lambda>s. ecrecover s (SUI_MESSAGE_PREFIX @ ser m)) (take q sigs) = map Inr keys
                    \<and> distinct keys \<and> (\<forall>k' \<in> set keys. vec_map_contains (pub_keys c) k')
                    \<and> (\<Sum>k'\<leftarrow>keys. unat (weight_of c k')) < 2 ^ 64)
            \<longrightarrow> verify_signatures ecrecover ser c m sigs = Inl EDuplicatedSignature)"
proof (intro conjI impI)
  let ?mb = "SUI_MESSAGE_PREFIX @ ser m"
  show "verify_signatures ecrecover ser c m sigs \<noteq> Inr ()"
  proof
    assume ok: "verify_signatures ecrecover ser c m sigs = Inr ()"
    then obtain th' where "verify_loop ecrecover c ?mb sigs 0 [] 0 = Inr th'"
      by (auto simp: verify_signatures_def Let_def split: sum.splits if_splits)
    from verify_loop_success [OF this]
    obtain rest where rest: "length rest = length sigs"
      "\<forall>j < length rest. ecrecover (sigs ! j) ?mb = Inr (rest ! j)" "distinct rest"
      by auto
    have "rest ! p = k" "rest ! q = k"
      using rest(1,2) pq kp kq by auto
    then show False
      using rest(1,3) pq by (metis distinct_conv_nth nat_neq_iff order_less_trans)
  qed
next
  let ?mb = "SUI_MESSAGE_PREFIX @ ser m"
  assume a: "vec_map_contains (thresholds c) (messageType m)
     \<and> (\<exists>keys. map (\<lambda>s. ecrecover s ?mb) (take q sigs) = map Inr keys
            \<and> distinct keys \<and> (\<forall>k' \<in> set keys. vec_map_contains (pub_keys c) k')
            \<and> (\<Sum>k'\<leftarrow>keys. unat (weight_of c k')) < 2 ^ 64)"
  then obtain keys where keys:
    "map (\<lambda>s. ecrecover s ?mb) (take q sigs) = map Inr keys" "distinct keys"
    "\<forall>k' \<in> set keys. vec_map_contains (pub_keys c) k'"
    "(\<Sum>k'\<leftarrow>keys. unat (weight_of c k')) < 2 ^ 64"
    by blast
  have len: "length keys = q"
    using keys(1) pq(2) by (metis length_map length_take min.absorb2 less_imp_le_nat)
  have recj: "\<forall>j < length keys. ecrecover (sigs ! j) ?mb = Inr (keys ! j)"
  proof (intro allI impI)
    fix j assume j: "j < length keys"
    then have "map (\<lambda>s. ecrecover s ?mb) (take q sigs) ! j = map Inr keys ! j"
      using keys(1) by simp
    then show "ecrecover (sigs ! j) ?mb = Inr (keys ! j)"
      using j len pq(2) by simp
  qed
  have kin: "k \<in> set keys"
    using recj kp pq(1) len by (metis nth_mem sum.inject(2))
  from verify_loop_from_start [where keys = keys and sigs = sigs and ecrecover = ecrecover
      and mb = ?mb and c = c] recj keys(2,3,4) len pq(2)
  obtain th' where th': "verify_loop ecrecover c ?mb sigs 0 [] 0
        = verify_loop ecrecover c ?mb sigs q keys th'"
    by auto
  have "verify_loop ecrecover c ?mb sigs q keys th' = Inl EDuplicatedSignature"
    using len pq(2) kq kin
    by (subst verify_loop.simps)
       (simp add: vec_set_size_def vector_borrow_def vec_set_contains_def)
  moreover obtain t where "vec_map_get (thresholds c) (messageType m) = Inr t"
    using a by (auto simp: vec_map_get_map_of vec_map_contains_map_of)
  ultimately show "verify_signatures ecrecover ser c m sigs = Inl EDuplicatedSignature"
    using th' by (simp add: verify_signatures_def)
qed


lemmas committee_eval =
  setup_test_def member_A_def member_B_def vec_map_try_get_map_of vec_map_contains_map_of
  vec_map_get_map_of weight_of_def

lemma committee_wf_setup_test: "committee_wf (setup_test token)"
  by (simp add: committee_wf_def total_weight_def setup_test_def)

lemma committee_wf_create: "committee_create sender token = Inr c \<Longrightarrow> committee_wf c"
  by (auto simp: committee_create_def committee_wf_def total_weight_def split: if_splits)

text \<open>
  The committee of the tests, members A and B of weight 100 each and the threshold 200:
  the signature of A alone is below the threshold, those of A and B pass, the empty
  list is below the threshold; the genesis committee of \<open>create\<close> rejects the empty
  list as well. In the examples the recovery function returns the bytes of the
  signature as the public key, and the message is serialised to its payload.
\<close>

theorem verify_signatures_threshold_witness:
  "verify_signatures (\<lambda>s mb. Inr s) payload (setup_test 0)
      \<lparr>messageType = 0, version = 1, nonce = 10, chainID = 0, payload = []\<rparr> [member_A]
     = Inl ESignatureBelowThreshold
   \<and> verify_signatures (\<lambda>s mb. Inr s) payload (setup_test 0)
      \<lparr>messageType = 0, version = 1, nonce = 10, chainID = 0, payload = []\<rparr> [member_A, member_B]
     = Inr ()
   \<and> verify_signatures (\<lambda>s mb. Inr s) payload (setup_test 0)
      \<lparr>messageType = 0, version = 1, nonce = 10, chainID = 0, payload = []\<rparr> []
     = Inl ESignatureBelowThreshold
   \<and> committee_create 0 0
     = Inr \<lparr>pub_keys = [(member_A, 10), (member_B, 10)], thresholds = [(0, 10)]\<rparr>
   \<and> verify_signatures (\<lambda>s mb. Inr s) payload
      \<lparr>pub_keys = [(member_A, 10), (member_B, 10)], thresholds = [(0, 10)]\<rparr>
      \<lparr>messageType = 0, version = 1, nonce = 10, chainID = 0, payload = []\<rparr> []
     = Inl ESignatureBelowThreshold"
proof (intro conjI)
  let ?m = "\<lparr>messageType = 0, version = 1, nonce = 10, chainID = 0, payload = []\<rparr>"
  let ?e = "\<lambda>(s :: bytes) (mb :: bytes). (Inr s :: abort + bytes)"
  let ?g = "\<lparr>pub_keys = [(member_A, 10), (member_B, 10)], thresholds = [(0, 10)]\<rparr>"
  have thr: "vec_map_try_get (thresholds (setup_test 0)) (messageType ?m) = Some 200"
    by (simp add: committee_eval)
  note test = verify_signatures_threshold [OF committee_wf_setup_test thr,
      where ecrecover = ?e and ser = payload]
  from test [where sigs = "[member_A]", THEN conjunct2, THEN conjunct1, THEN spec,
      of "[member_A]"]
  show "verify_signatures ?e payload (setup_test 0) ?m [member_A]
     = Inl ESignatureBelowThreshold"
    by (simp add: committee_eval)
  have "map (\<lambda>s. ?e s (SUI_MESSAGE_PREFIX @ payload ?m)) [member_A, member_B]
          = map Inr [member_A, member_B]
      \<and> distinct [member_A, member_B]
      \<and> (\<forall>k \<in> set [member_A, member_B]. vec_map_contains (pub_keys (setup_test 0)) k)
      \<and> unat (200 :: u64) \<le> (\<Sum>k\<leftarrow>[member_A, member_B]. unat (weight_of (setup_test 0) k))"
    by (simp add: committee_eval)
  then have "\<exists>keys. map (\<lambda>s. ?e s (SUI_MESSAGE_PREFIX @ payload ?m)) [member_A, member_B]
          = map Inr keys
      \<and> distinct keys
      \<and> (\<forall>k \<in> set keys. vec_map_contains (pub_keys (setup_test 0)) k)
      \<and> unat (200 :: u64) \<le> (\<Sum>k\<leftarrow>keys. unat (weight_of (setup_test 0) k))"
    by (rule exI)
  with test [where sigs = "[member_A, member_B]", THEN conjunct1]
  show "verify_signatures ?e payload (setup_test 0) ?m [member_A, member_B] = Inr ()"
    by (rule iffD2)
  from test [where sigs = "[]", THEN conjunct2, THEN conjunct2]
  show "verify_signatures ?e payload (setup_test 0) ?m [] = Inl ESignatureBelowThreshold"
    by simp
  show created: "committee_create 0 0 = Inr ?g"
    by (simp add: committee_create_def)
  have thr0: "vec_map_try_get (thresholds ?g) (messageType ?m) = Some 10"
    by (simp add: vec_map_try_get_map_of)
  from verify_signatures_threshold [OF committee_wf_create [OF created] thr0,
      where ecrecover = ?e and ser = payload and sigs = "[]", THEN conjunct2, THEN conjunct2]
  show "verify_signatures ?e payload ?g ?m [] = Inl ESignatureBelowThreshold"
    by simp
qed

text \<open>
  On the committee of the tests the distinct committee members among the signers of
  \<open>[A, A, B]\<close> and of \<open>[A, B, X]\<close> (X outside the committee) are A and B, whose
  weights reach the threshold 200; the first list aborts with \<open>EDuplicatedSignature\<close>
  and the second with \<open>EInvalidSignature\<close>.
\<close>

theorem verify_signatures_threshold_counterexample:
  "verify_signatures (\<lambda>s mb. Inr s) payload (setup_test 0)
      \<lparr>messageType = 0, version = 1, nonce = 10, chainID = 0, payload = []\<rparr>
      [member_A, member_A, member_B]
     = Inl EDuplicatedSignature
   \<and> verify_signatures (\<lambda>s mb. Inr s) payload (setup_test 0)
      \<lparr>messageType = 0, version = 1, nonce = 10, chainID = 0, payload = []\<rparr>
      [member_A, member_B, [0x04]]
     = Inl EInvalidSignature
   \<and> vec_map_try_get (thresholds (setup_test 0)) 0 = Some 200
   \<and> unat (weight_of (setup_test 0) member_A) + unat (weight_of (setup_test 0) member_B) = 200
   \<and> \<not> vec_map_contains (pub_keys (setup_test 0)) [0x04]"
  by (simp add: verify_signatures_def verify_loop.simps vec_map_get_map_of
      vec_map_contains_map_of vec_map_try_get_map_of weight_of_def
      vec_set_size_def vector_borrow_def vec_set_contains_def
      vec_set_insert_def u64_add_def member_A_def member_B_def setup_test_def)

text \<open>The committee of the tests has no threshold for the message type 4.\<close>

theorem verify_signatures_no_threshold_witness:
  "verify_signatures (\<lambda>s mb. Inr s) payload (setup_test 0)
      \<lparr>messageType = 4, version = 1, nonce = 10, chainID = 0, payload = []\<rparr>
      [member_A, member_B]
     = Inl (Abort M_vec_map 1)"
  using verify_signatures_no_threshold [where c = "setup_test 0"
      and m = "\<lparr>messageType = 4, version = 1, nonce = 10, chainID = 0, payload = []\<rparr>"
      and ecrecover = "\<lambda>s mb. Inr s" and ser = payload and sigs = "[member_A, member_B]"]
  by (simp add: committee_eval)

text \<open>
  The abort of the missing threshold is raised by \<open>vec_map\<close>; it is none of the
  errors the committee module declares.
\<close>

theorem verify_signatures_no_threshold_counterexample:
  "verify_signatures (\<lambda>s mb. Inr s) payload (setup_test 0)
      \<lparr>messageType = 4, version = 1, nonce = 10, chainID = 0, payload = []\<rparr>
      [member_A, member_B]
     = Inl (Abort M_vec_map 1)
   \<and> Abort M_vec_map 1 \<notin> set committee_errors"
  by (simp add: verify_signatures_def vec_map_get_map_of setup_test_def committee_errors_def
      ESignatureBelowThreshold_def EDuplicatedSignature_def EInvalidSignature_def
      ENotSystemAddress_def)

text \<open>The signature of member B twice, as in \<open>test_verify_signatures_duplicated_sig\<close>.\<close>

theorem verify_signatures_duplicate_witness:
  "verify_signatures (\<lambda>s mb. Inr s) payload (setup_test 0)
      \<lparr>messageType = 0, version = 1, nonce = 10, chainID = 0, payload = []\<rparr>
      [member_B, member_B]
     = Inl EDuplicatedSignature
   \<and> verify_signatures (\<lambda>s mb. Inr s) payload (setup_test 0)
      \<lparr>messageType = 0, version = 1, nonce = 10, chainID = 0, payload = []\<rparr>
      [member_B, member_B]
     \<noteq> Inr ()"
proof -
  let ?m = "\<lparr>messageType = 0, version = 1, nonce = 10, chainID = 0, payload = []\<rparr>"
  let ?e = "\<lambda>(s :: bytes) (mb :: bytes). (Inr s :: abort + bytes)"
  have thr: "vec_map_contains (thresholds (setup_test 0)) (messageType ?m)"
    by (simp add: committee_eval)
  have "map (\<lambda>s. ?e s (SUI_MESSAGE_PREFIX @ payload ?m)) (take 1 [member_B, member_B])
          = map Inr [member_B]
        \<and> distinct [member_B]
        \<and> (\<forall>k' \<in> set [member_B]. vec_map_contains (pub_keys (setup_test 0)) k')
        \<and> (\<Sum>k'\<leftarrow>[member_B]. unat (weight_of (setup_test 0) k')) < 2 ^ 64"
    by (simp add: committee_eval)
  then have ex: "\<exists>keys. map (\<lambda>s. ?e s (SUI_MESSAGE_PREFIX @ payload ?m)) (take 1 [member_B, member_B])
          = map Inr keys
        \<and> distinct keys
        \<and> (\<forall>k' \<in> set keys. vec_map_contains (pub_keys (setup_test 0)) k')
        \<and> (\<Sum>k'\<leftarrow>keys. unat (weight_of (setup_test 0) k')) < 2 ^ 64"
    by (rule exI)
  have "0 < (1::nat)" "1 < length [member_B, member_B]" by simp_all
  from verify_signatures_duplicate [where ecrecover = ?e and ser = payload and m = ?m
      and c = "setup_test 0" and sigs = "[member_B, member_B]" and k = member_B, OF this]
    thr ex
  show ?thesis by simp
qed

text \<open>
  A signature of a key outside the committee before the repeated signature of A: the
  loop aborts at the first signature with \<open>EInvalidSignature\<close>.
\<close>

theorem verify_signatures_duplicate_counterexample:
  "verify_signatures (\<lambda>s mb. Inr s) payload (setup_test 0)
      \<lparr>messageType = 0, version = 1, nonce = 10, chainID = 0, payload = []\<rparr>
      [[0x04], member_A, member_A]
     = Inl EInvalidSignature
   \<and> EInvalidSignature \<noteq> EDuplicatedSignature"
  by (simp add: verify_signatures_def verify_loop.simps vec_map_get_map_of
      vec_map_contains_map_of vec_set_size_def vector_borrow_def vec_set_contains_def
      vec_set_insert_def u64_add_def member_A_def member_B_def setup_test_def
      EInvalidSignature_def EDuplicatedSignature_def)

section \<open>Treasury: registration and approval\<close>

lemma get_idx_Inr: "get_idx m k = Inr i \<longleftrightarrow> get_idx_opt m k = Some i"
  by (simp add: get_idx_def split: option.splits)

lemma map_of_update_at_idx:
  "get_idx_opt m k = Some i \<Longrightarrow> map_of (m[i := (fst (m ! i), v)]) = (map_of m)(k \<mapsto> v)"
proof (induction m arbitrary: i)
  case Nil
  then show ?case by simp
next
  case (Cons e m)
  show ?case
  proof (cases "fst e = k")
    case True
    with Cons.prems show ?thesis by (cases e) auto
  next
    case False
    with Cons.prems obtain j where j: "get_idx_opt m k = Some j" "i = Suc j"
      by auto
    from Cons.IH [OF j(1)] False j(2) show ?thesis
      by (cases e) (auto simp: fun_upd_twist)
  qed
qed

lemma keys_update_at_idx:
  "i < length m \<Longrightarrow> map fst (m[i := (fst (m ! i), v)]) = map fst m"
  by (simp add: map_update list_update_same_conv)

lemma pow10_fits: "d \<le> 19 \<Longrightarrow> (10::nat) ^ d < 2 ^ 64"
proof -
  assume "d \<le> 19"
  then have "(10::nat) ^ d \<le> 10 ^ 19" by (intro power_increasing) simp_all
  also have "\<dots> < 2 ^ 64" by simp
  finally show ?thesis .
qed

lemma unat_pow10: "d \<le> 19 \<Longrightarrow> unat ((10::u64) ^ d) = 10 ^ d"
proof -
  assume d: "d \<le> 19"
  have "(10::u64) ^ d = of_nat (10 ^ d)" by simp
  then have "unat ((10::u64) ^ d) = (10 ^ d) mod 2 ^ 64"
    by (simp only: unat_of_nat) simp
  with pow10_fits [OF d] show ?thesis by simp
qed

lemma math_pow_10: "unat d \<le> 19 \<Longrightarrow> math_pow 10 d = Inr (10 ^ unat d)"
  using pow10_fits [of "unat d"] by (simp add: math_pow_def)

lemma approve_new_token_run:
  assumes "waiting_room self token_name = Some registration"
    and "unat (decimal registration) \<le> 19"
    and "\<not> vec_map_contains (supported_tokens self) (type_name registration)"
    and "\<not> vec_map_contains (id_token_type_map self) token_id"
  shows "approve_new_token self token_name token_id False nv
        = Inr (self\<lparr> supported_tokens := supported_tokens self @
                 [(type_name registration,
                   \<lparr> id' = token_id, decimal_multiplier = 10 ^ unat (decimal registration),
                     notional_value = nv, native_token = False \<rparr>)],
                 id_token_type_map := id_token_type_map self @ [(token_id, type_name registration)],
                 waiting_room := (waiting_room self)(token_name := None) \<rparr>,
               [Freeze (uc registration),
                Emit (NewTokenEvent token_id (type_name registration) False)])"
  using assms math_pow_10 [OF assms(2)]
  by (simp add: approve_new_token_def bag_remove_def vec_map_insert_def)

text \<open>
  C5. Let a registration be pending in the waiting room under \<open>token_name\<close>, with
  decimals of at most 19 (so that \<open>10^decimals\<close> fits a \<open>u64\<close>), for a type that has
  no entry in \<open>supported_tokens\<close>, and let \<open>token_id\<close> have no entry in
  \<open>id_token_type_map\<close>. Then \<open>approve_new_token\<close> with \<open>native_token = false\<close>
  removes the pending entry, inserts under the registered type a metadata with the
  id \<open>token_id\<close>, the multiplier \<open>10^decimals\<close>, the given notional value and
  \<open>native_token = false\<close>, maps \<open>token_id\<close> to the type, freezes the upgrade cap of
  the registration and emits \<open>NewTokenEvent\<close>; the treasury caps are untouched.
\<close>

theorem approve_new_token_foreign:
  assumes pending: "waiting_room self token_name = Some registration"
    and dec: "unat (decimal registration) \<le> 19"
    and fresh_type: "\<not> vec_map_contains (supported_tokens self) (type_name registration)"
    and fresh_id: "\<not> vec_map_contains (id_token_type_map self) token_id"
  shows "\<exists>self'. approve_new_token self token_name token_id False nv
             = Inr (self', [Freeze (uc registration),
                            Emit (NewTokenEvent token_id (type_name registration) False)])
           \<and> waiting_room self' = (waiting_room self)(token_name := None)
           \<and> supported_tokens self' = supported_tokens self @
                [(type_name registration,
                  \<lparr> id' = token_id, decimal_multiplier = 10 ^ unat (decimal registration),
                    notional_value = nv, native_token = False \<rparr>)]
           \<and> vec_map_try_get (supported_tokens self') (type_name registration)
               = Some \<lparr> id' = token_id, decimal_multiplier = 10 ^ unat (decimal registration),
                        notional_value = nv, native_token = False \<rparr>
           \<and> unat ((10::u64) ^ unat (decimal registration)) = 10 ^ unat (decimal registration)
           \<and> id_token_type_map self' = id_token_type_map self @ [(token_id, type_name registration)]
           \<and> vec_map_try_get (id_token_type_map self') token_id = Some (type_name registration)
           \<and> treasuries self' = treasuries self"
proof -
  let ?md = "\<lparr> id' = token_id, decimal_multiplier = 10 ^ unat (decimal registration),
                 notional_value = nv, native_token = False \<rparr>"
  let ?self' = "self\<lparr> supported_tokens := supported_tokens self @ [(type_name registration, ?md)],
                 id_token_type_map := id_token_type_map self @ [(token_id, type_name registration)],
                 waiting_room := (waiting_room self)(token_name := None) \<rparr>"
  have run: "approve_new_token self token_name token_id False nv
        = Inr (?self', [Freeze (uc registration),
                        Emit (NewTokenEvent token_id (type_name registration) False)])"
    using pending dec fresh_type fresh_id by (rule approve_new_token_run)
  have t: "map_of (supported_tokens self) (type_name registration) = None"
    using fresh_type by (simp add: vec_map_contains_map_of)
  have i: "map_of (id_token_type_map self) token_id = None"
    using fresh_id by (simp add: vec_map_contains_map_of)
  show ?thesis
    using run unat_pow10 [OF dec]
    by (intro exI [of _ ?self'])
       (simp add: vec_map_try_get_map_of map_add_def t i)
qed


lemma usdc_registered_eq:
  "usdc_registered =
     create\<lparr> treasuries := [usdc_coin \<mapsto> fresh_cap],
             waiting_room := [into_string usdc_coin \<mapsto>
               \<lparr> type_name = usdc_coin, uc = bridge_upgrade_cap, decimal = 6 \<rparr>] \<rparr>"
  by (simp add: usdc_registered_def register_foreign_token_def after_call_def create_def
      fresh_cap_def bridge_upgrade_cap_def usdc_coin_def bag_add_def Let_def)

text \<open>
  The scenario of the spec: the coin registered with 6 decimals is approved with the
  id 3 and the notional value 10000, and its multiplier is \<open>1_000_000\<close>.
\<close>

theorem approve_new_token_foreign_witness:
  "\<exists>self'. approve_new_token usdc_registered (into_string usdc_coin) 3 False 10000
             = Inr (self', [Freeze bridge_upgrade_cap, Emit (NewTokenEvent 3 usdc_coin False)])
           \<and> waiting_room self' (into_string usdc_coin) = None
           \<and> vec_map_try_get (supported_tokens self') usdc_coin
               = Some \<lparr> id' = 3, decimal_multiplier = 1000000, notional_value = 10000,
                        native_token = False \<rparr>
           \<and> vec_map_try_get (id_token_type_map self') 3 = Some usdc_coin"
proof -
  let ?reg = "\<lparr> type_name = usdc_coin, uc = bridge_upgrade_cap, decimal = 6 \<rparr>"
  have 1: "waiting_room usdc_registered (into_string usdc_coin) = Some ?reg"
    by (simp add: usdc_registered_eq)
  have 2: "unat (decimal ?reg) \<le> 19" by simp
  have 3: "\<not> vec_map_contains (supported_tokens usdc_registered) (type_name ?reg)"
    by (simp add: usdc_registered_eq create_def vec_map_contains_def)
  have 4: "\<not> vec_map_contains (id_token_type_map usdc_registered) 3"
    by (simp add: usdc_registered_eq create_def vec_map_contains_def)
  from approve_new_token_foreign [OF 1 2 3 4, of 10000]
  show ?thesis by auto
qed

text \<open>
  In the treasury of the tests the id 3 is taken by \<open>USDC\<close>: the approval of a newly
  registered coin with the id 3 aborts in \<open>vec_map::insert\<close>, although its
  registration is pending.
\<close>

theorem approve_new_token_foreign_counterexample:
  "approve_new_token
      (after_call mock_for_test
         (register_foreign_token mock_for_test usdc_coin fresh_cap bridge_upgrade_cap
            \<lparr> get_decimals = 6 \<rparr>))
      (into_string usdc_coin) 3 False 10000
     = Inl (Abort M_vec_map 0)
   \<and> waiting_room
        (after_call mock_for_test
           (register_foreign_token mock_for_test usdc_coin fresh_cap bridge_upgrade_cap
              \<lparr> get_decimals = 6 \<rparr>))
        (into_string usdc_coin)
     = Some \<lparr> type_name = usdc_coin, uc = bridge_upgrade_cap, decimal = 6 \<rparr>"
  by (simp add: register_foreign_token_def after_call_def mock_for_test_def create_def
      fresh_cap_def bridge_upgrade_cap_def usdc_coin_def bag_add_def Let_def approve_new_token_def
      bag_remove_def math_pow_def vec_map_insert_def vec_map_contains_def
      BTC_def ETH_def USDC_def USDT_def test_type_def)

lemma approve_new_token_Inr:
  assumes "approve_new_token self token_name token_id False nv = Inr (self', fx)"
  shows "\<exists>registration multiplier.
           waiting_room self token_name = Some registration
         \<and> math_pow 10 (decimal registration) = Inr multiplier
         \<and> \<not> vec_map_contains (supported_tokens self) (type_name registration)
         \<and> \<not> vec_map_contains (id_token_type_map self) token_id
         \<and> self' = self\<lparr> supported_tokens := supported_tokens self @
                 [(type_name registration,
                   \<lparr> id' = token_id, decimal_multiplier = multiplier,
                     notional_value = nv, native_token = False \<rparr>)],
               id_token_type_map := id_token_type_map self @ [(token_id, type_name registration)],
               waiting_room := (waiting_room self)(token_name := None) \<rparr>
         \<and> fx = [Freeze (uc registration),
                  Emit (NewTokenEvent token_id (type_name registration) False)]"
  using assms
  by (auto simp: approve_new_token_def bag_remove_def vec_map_insert_def
      split: option.splits sum.splits if_splits)

text \<open>
  C6. A call of \<open>approve_new_token\<close> for a foreign token that succeeds consumes the
  pending registration: it was in the waiting room before and is gone after, the call
  added exactly one entry to \<open>supported_tokens\<close>, under a type that had none, and
  every further call with the same token name (whatever the id and the notional value)
  fails with the not-found abort of the removal from the waiting room, leaving the
  treasury as it is.
\<close>

theorem approve_new_token_once:
  assumes first: "approve_new_token self token_name token_id False nv = Inr (self', fx)"
  shows "(\<exists>registration. waiting_room self token_name = Some registration
            \<and> map fst (supported_tokens self')
                = map fst (supported_tokens self) @ [type_name registration]
            \<and> type_name registration \<notin> set (map fst (supported_tokens self)))
         \<and> waiting_room self' token_name = None
         \<and> approve_new_token self' token_name token_id2 False nv2 = Inl (Abort M_dynamic_field 1)
         \<and> after_call self' (approve_new_token self' token_name token_id2 False nv2) = self'"
proof -
  from approve_new_token_Inr [OF first]
  obtain registration multiplier where r:
    "waiting_room self token_name = Some registration"
    "\<not> vec_map_contains (supported_tokens self) (type_name registration)"
    "self' = self\<lparr> supported_tokens := supported_tokens self @
                 [(type_name registration,
                   \<lparr> id' = token_id, decimal_multiplier = multiplier,
                     notional_value = nv, native_token = False \<rparr>)],
               id_token_type_map := id_token_type_map self @ [(token_id, type_name registration)],
               waiting_room := (waiting_room self)(token_name := None) \<rparr>"
    by blast
  have gone: "waiting_room self' token_name = None"
    by (simp add: r(3))
  then have second: "approve_new_token self' token_name token_id2 False nv2
      = Inl (Abort M_dynamic_field 1)"
    by (simp add: approve_new_token_def bag_remove_def)
  have "type_name registration \<notin> set (map fst (supported_tokens self))"
    using r(2) by (simp add: vec_map_contains_def get_idx_opt_None)
  then show ?thesis
    using r(1) gone second by (simp add: r(3) after_call_def)
qed


lemma into_string_eq:
  "into_string a = into_string b
     \<Longrightarrow> get_module a @ ''::'' @ get_name a = get_module b @ ''::'' @ get_name b"
  by (simp add: into_string_def)

lemma usdc_registered_fresh:
  "waiting_room usdc_registered (into_string usdc_coin)
     = Some \<lparr> type_name = usdc_coin, uc = bridge_upgrade_cap, decimal = 6 \<rparr>"
  "\<not> vec_map_contains (supported_tokens usdc_registered) usdc_coin"
  "\<not> vec_map_contains (id_token_type_map usdc_registered) 3"
  by (simp_all add: usdc_registered_eq create_def vec_map_contains_def)

text \<open>The registered coin is approved once; the second approval finds nothing.\<close>

theorem approve_new_token_once_witness:
  "approve_new_token
      (after_call usdc_registered
         (approve_new_token usdc_registered (into_string usdc_coin) 3 False 10000))
      (into_string usdc_coin) 3 False 10000
     = Inl (Abort M_dynamic_field 1)
   \<and> waiting_room
        (after_call usdc_registered
           (approve_new_token usdc_registered (into_string usdc_coin) 3 False 10000))
        (into_string usdc_coin)
     = None
   \<and> map fst (supported_tokens
        (after_call usdc_registered
           (approve_new_token usdc_registered (into_string usdc_coin) 3 False 10000)))
     = [usdc_coin]"
proof -
  let ?reg = "\<lparr> type_name = usdc_coin, uc = bridge_upgrade_cap, decimal = 6 \<rparr>"
  define s1 where "s1 = after_call usdc_registered
         (approve_new_token usdc_registered (into_string usdc_coin) 3 False 10000)"
  have dec: "unat (decimal ?reg) \<le> 19" by simp
  have t: "\<not> vec_map_contains (supported_tokens usdc_registered) (type_name ?reg)"
    using usdc_registered_fresh(2) by simp
  note run = approve_new_token_run [OF usdc_registered_fresh(1) dec t usdc_registered_fresh(3),
      of 10000]
  have first: "approve_new_token usdc_registered (into_string usdc_coin) 3 False 10000
      = Inr (s1, [Freeze (uc ?reg), Emit (NewTokenEvent 3 (type_name ?reg) False)])"
    unfolding s1_def after_call_def by (simp only: run sum.case prod.case)
  have empty: "supported_tokens usdc_registered = []"
    by (simp add: usdc_registered_eq create_def)
  from approve_new_token_once [OF first, of 3 10000]
  have "approve_new_token s1 (into_string usdc_coin) 3 False 10000 = Inl (Abort M_dynamic_field 1)
      \<and> waiting_room s1 (into_string usdc_coin) = None
      \<and> map fst (supported_tokens s1) = [usdc_coin]"
    by (auto simp: usdc_registered_fresh(1) empty)
  then show ?thesis
    unfolding s1_def .
qed

text \<open>
  From the empty treasury: two coins are registered and the first is approved with the
  id 3. The first approval of the second coin with the same id aborts in
  \<open>vec_map::insert\<close>, while its registration is still pending.
\<close>

theorem approve_new_token_once_counterexample:
  "(let s1 = after_call create
               (register_foreign_token create usdc_coin fresh_cap bridge_upgrade_cap
                  \<lparr> get_decimals = 6 \<rparr>);
        s2 = after_call s1
               (register_foreign_token s1 usdt_coin fresh_cap bridge_upgrade_cap
                  \<lparr> get_decimals = 6 \<rparr>);
        s3 = after_call s2 (approve_new_token s2 (into_string usdc_coin) 3 False 10000)
    in waiting_room s3 (into_string usdt_coin)
         = Some \<lparr> type_name = usdt_coin, uc = bridge_upgrade_cap, decimal = 6 \<rparr>
       \<and> vec_map_try_get (id_token_type_map s3) 3 = Some usdc_coin
       \<and> approve_new_token s3 (into_string usdt_coin) 3 False 10000 = Inl (Abort M_vec_map 0))"
proof -
  have ne: "into_string usdc_coin \<noteq> into_string usdt_coin"
    using into_string_eq [of usdc_coin usdt_coin] by (auto simp: usdc_coin_def usdt_coin_def)
  have ne2: "usdc_coin \<noteq> usdt_coin"
    by (simp add: usdc_coin_def usdt_coin_def)
  have adr: "get_address usdc_coin = 0xb" "get_address usdt_coin = 0xb"
    by (simp_all add: usdc_coin_def usdt_coin_def)
  show ?thesis
    using ne ne2 ne [symmetric] ne2 [symmetric]
    by (simp add: adr register_foreign_token_def after_call_def create_def
      fresh_cap_def bridge_upgrade_cap_def bag_add_def Let_def approve_new_token_def
      bag_remove_def math_pow_def vec_map_insert_def vec_map_contains_def
      vec_map_try_get_def vec_map_get_def get_idx_def)
qed

text \<open>
  C7. \<open>register_foreign_token<T>\<close> aborts with \<open>ETokenSupplyNonZero\<close> when the total
  supply of the treasury cap is not zero; otherwise it aborts with
  \<open>EInvalidUpgradeCap\<close> when the package of the upgrade cap is not the package of
  \<open>T\<close>; otherwise, for a type that has no pending registration and no treasury cap in
  the treasury yet (there is one \<open>TreasuryCap<T>\<close> for a coin type, and the caller
  hands it over), it stores the pending registration under the name of \<open>T\<close>,
  deposits the cap and emits \<open>TokenRegistrationEvent\<close>.
\<close>

theorem register_foreign_token_checks:
  "(total_supply tc \<noteq> 0 \<longrightarrow>
      register_foreign_token self T tc upgrade_cap metadata = Inl ETokenSupplyNonZero)
   \<and> (total_supply tc = 0 \<and> upgrade_package upgrade_cap \<noteq> get_address T \<longrightarrow>
      register_foreign_token self T tc upgrade_cap metadata = Inl EInvalidUpgradeCap)
   \<and> (total_supply tc = 0 \<and> upgrade_package upgrade_cap = get_address T
        \<and> waiting_room self (into_string T) = None \<and> treasuries self T = None \<longrightarrow>
      register_foreign_token self T tc upgrade_cap metadata
        = Inr (self\<lparr> treasuries := (treasuries self)(T \<mapsto> tc),
                      waiting_room := (waiting_room self)(into_string T \<mapsto>
                        \<lparr> type_name = T, uc = upgrade_cap, decimal = get_decimals metadata \<rparr>) \<rparr>,
               [Emit (TokenRegistrationEvent T (get_decimals metadata) False)]))"
  by (simp add: register_foreign_token_def bag_add_def Let_def)

text \<open>A cap with a supply of 5, the upgrade cap of another package, and a good registration.\<close>

theorem register_foreign_token_checks_witness:
  "register_foreign_token create usdc_coin \<lparr> total_supply = 5 \<rparr> bridge_upgrade_cap
      \<lparr> get_decimals = 6 \<rparr> = Inl ETokenSupplyNonZero
   \<and> register_foreign_token create usdc_coin fresh_cap \<lparr> upgrade_package = 0xc \<rparr>
      \<lparr> get_decimals = 6 \<rparr> = Inl EInvalidUpgradeCap
   \<and> register_foreign_token create usdc_coin fresh_cap bridge_upgrade_cap
      \<lparr> get_decimals = 6 \<rparr>
     = Inr (create\<lparr> treasuries := [usdc_coin \<mapsto> fresh_cap],
                    waiting_room := [into_string usdc_coin \<mapsto>
                      \<lparr> type_name = usdc_coin, uc = bridge_upgrade_cap, decimal = 6 \<rparr>] \<rparr>,
            [Emit (TokenRegistrationEvent usdc_coin 6 False)])"
  using register_foreign_token_checks [of "\<lparr> total_supply = 5 \<rparr>" create usdc_coin
      bridge_upgrade_cap "\<lparr> get_decimals = 6 \<rparr>"]
    register_foreign_token_checks [of fresh_cap create usdc_coin
      "\<lparr> upgrade_package = 0xc \<rparr>" "\<lparr> get_decimals = 6 \<rparr>"]
    register_foreign_token_checks [of fresh_cap create usdc_coin
      bridge_upgrade_cap "\<lparr> get_decimals = 6 \<rparr>"]
  by (simp add: fresh_cap_def bridge_upgrade_cap_def usdc_coin_def create_def)

text \<open>
  C10. With \<open>native_token = true\<close>, \<open>approve_new_token\<close> returns the treasury it
  was given and no effect, for every token name, id and notional value: nothing is
  removed, inserted, frozen or emitted, and the call does not abort.
\<close>

theorem approve_new_token_native_noop:
  "approve_new_token self token_name token_id True nv = Inr (self, [])
   \<and> after_call self (approve_new_token self token_name token_id True nv) = self"
  by (simp add: approve_new_token_def after_call_def)

section \<open>Treasury: prices, mint and burn\<close>

lemma id_map_supported_iff:
  "id_map_supported self \<longleftrightarrow>
     (\<forall>tid tn. (tid, tn) \<in> set (id_token_type_map self)
        \<longrightarrow> vec_map_contains (supported_tokens self) tn)"
  by (auto simp: id_map_supported_def list_all_iff)

lemma vec_map_contains_keys: "vec_map_contains m k \<longleftrightarrow> k \<in> set (map fst m)"
  by (simp add: vec_map_contains_def get_idx_opt_None)

lemma register_foreign_token_maps:
  assumes "register_foreign_token self T tc upgrade_cap metadata = Inr (self', fx)"
  shows "supported_tokens self' = supported_tokens self
       \<and> id_token_type_map self' = id_token_type_map self"
  using assms
  by (auto simp: register_foreign_token_def Let_def split: if_splits sum.splits)

lemma update_asset_notional_price_Inr:
  assumes "update_asset_notional_price self token_id price = Inr (self', fx)"
  shows "\<exists>tn idx. vec_map_try_get (id_token_type_map self) token_id = Some tn
           \<and> get_idx_opt (supported_tokens self) tn = Some idx
           \<and> self' = self\<lparr> supported_tokens := (supported_tokens self)
                 [idx := (fst (supported_tokens self ! idx),
                          (snd (supported_tokens self ! idx))\<lparr>notional_value := price\<rparr>)] \<rparr>
           \<and> fx = [Emit (UpdateTokenPriceEvent token_id price)]"
  using assms
  by (auto simp: update_asset_notional_price_def Let_def get_idx_Inr
      split: option.splits sum.splits)

text \<open>Every treasury the module can produce satisfies the invariant.\<close>

lemma reachable_id_map_supported: "reachable self \<Longrightarrow> id_map_supported self"
proof (induction rule: reachable.induct)
  case reach_create
  show ?case by (simp add: id_map_supported_def create_def)
next
  case reach_mock
  show ?case
    by (simp add: id_map_supported_def mock_for_test_def create_def vec_map_contains_keys)
next
  case (reach_register self T tc upgrade_cap metadata self' fx)
  with register_foreign_token_maps [OF reach_register(2)] show ?case
    by (simp add: id_map_supported_def)
next
  case (reach_approve self token_name token_id is_native nv self' fx)
  show ?case
  proof (cases is_native)
    case True
    with reach_approve show ?thesis by (simp add: approve_new_token_def)
  next
    case False
    with reach_approve(2) have "approve_new_token self token_name token_id False nv = Inr (self', fx)"
      by simp
    from approve_new_token_Inr [OF this] reach_approve(3) show ?thesis
      by (auto simp: id_map_supported_iff vec_map_contains_keys)
  qed
next
  case (reach_burn self T token self')
  then show ?case
    by (auto simp: burn_def id_map_supported_def split: sum.splits)
next
  case (reach_mint self T amount self' c)
  then show ?case
    by (auto simp: mint_def id_map_supported_def split: sum.splits)
next
  case (reach_update self token_id price self' fx)
  from update_asset_notional_price_Inr [OF reach_update(2)]
  obtain tn idx where u: "get_idx_opt (supported_tokens self) tn = Some idx"
    "self' = self\<lparr> supported_tokens := (supported_tokens self)
                 [idx := (fst (supported_tokens self ! idx),
                          (snd (supported_tokens self ! idx))\<lparr>notional_value := price\<rparr>)] \<rparr>"
    by blast
  have "idx < length (supported_tokens self)"
    using get_idx_opt_Some [OF u(1)] by simp
  then have "map fst (supported_tokens self') = map fst (supported_tokens self)"
    by (simp add: u(2) keys_update_at_idx)
  with reach_update(3) show ?case
    by (simp add: id_map_supported_iff vec_map_contains_keys u(2))
qed

text \<open>
  C8. In a treasury the module can produce, \<open>update_asset_notional_price\<close> aborts with
  \<open>EUnsupportedTokenType\<close>, the treasury staying as it is, when \<open>token_id\<close> has no
  entry in \<open>id_token_type_map\<close>. When \<open>token_id\<close> is mapped to a type, the call
  succeeds and emits \<open>UpdateTokenPriceEvent\<close>; the metadata of that type is the old
  one with \<open>notional_value\<close> set to the new price (id, multiplier and native flag as
  before), the metadata of every other type, the keys of \<open>supported_tokens\<close>, the id
  map, the treasury caps and the waiting room are unchanged.
\<close>

theorem update_asset_notional_price_frame:
  assumes "reachable self"
  shows "(vec_map_try_get (id_token_type_map self) token_id = None \<longrightarrow>
            update_asset_notional_price self token_id new_usd_price = Inl EUnsupportedTokenType
          \<and> after_call self (update_asset_notional_price self token_id new_usd_price) = self)
       \<and> (\<forall>tn. vec_map_try_get (id_token_type_map self) token_id = Some tn \<longrightarrow>
            (\<exists>self' metadata.
               update_asset_notional_price self token_id new_usd_price
                 = Inr (self', [Emit (UpdateTokenPriceEvent token_id new_usd_price)])
             \<and> vec_map_try_get (supported_tokens self) tn = Some metadata
             \<and> vec_map_try_get (supported_tokens self') tn
                 = Some (metadata\<lparr>notional_value := new_usd_price\<rparr>)
             \<and> (\<forall>tn'. tn' \<noteq> tn \<longrightarrow>
                   vec_map_try_get (supported_tokens self') tn'
                     = vec_map_try_get (supported_tokens self) tn')
             \<and> map fst (supported_tokens self') = map fst (supported_tokens self)
             \<and> id_token_type_map self' = id_token_type_map self
             \<and> treasuries self' = treasuries self
             \<and> waiting_room self' = waiting_room self))"
proof (intro conjI allI impI)
  assume "vec_map_try_get (id_token_type_map self) token_id = None"
  then show "update_asset_notional_price self token_id new_usd_price = Inl EUnsupportedTokenType"
    and "after_call self (update_asset_notional_price self token_id new_usd_price) = self"
    by (simp_all add: update_asset_notional_price_def after_call_def)
next
  fix tn
  assume tn: "vec_map_try_get (id_token_type_map self) token_id = Some tn"
  then have "(token_id, tn) \<in> set (id_token_type_map self)"
    by (simp add: vec_map_try_get_map_of map_of_SomeD)
  with reachable_id_map_supported [OF assms]
  have "vec_map_contains (supported_tokens self) tn"
    by (auto simp: id_map_supported_iff)
  then obtain idx where idx: "get_idx_opt (supported_tokens self) tn = Some idx"
    by (auto simp: vec_map_contains_def)
  from get_idx_opt_Some [OF idx]
  have lt: "idx < length (supported_tokens self)"
    and md: "map_of (supported_tokens self) tn = Some (snd (supported_tokens self ! idx))"
    by simp_all
  let ?md = "snd (supported_tokens self ! idx)"
  let ?st = "(supported_tokens self)
      [idx := (fst (supported_tokens self ! idx), ?md\<lparr>notional_value := new_usd_price\<rparr>)]"
  let ?self' = "self\<lparr> supported_tokens := ?st \<rparr>"
  have run: "update_asset_notional_price self token_id new_usd_price
      = Inr (?self', [Emit (UpdateTokenPriceEvent token_id new_usd_price)])"
    using tn idx by (simp add: update_asset_notional_price_def get_idx_def Let_def)
  have look: "map_of ?st = (map_of (supported_tokens self))(tn \<mapsto> ?md\<lparr>notional_value := new_usd_price\<rparr>)"
    using idx by (rule map_of_update_at_idx)
  show "\<exists>self' metadata.
               update_asset_notional_price self token_id new_usd_price
                 = Inr (self', [Emit (UpdateTokenPriceEvent token_id new_usd_price)])
             \<and> vec_map_try_get (supported_tokens self) tn = Some metadata
             \<and> vec_map_try_get (supported_tokens self') tn
                 = Some (metadata\<lparr>notional_value := new_usd_price\<rparr>)
             \<and> (\<forall>tn'. tn' \<noteq> tn \<longrightarrow>
                   vec_map_try_get (supported_tokens self') tn'
                     = vec_map_try_get (supported_tokens self) tn')
             \<and> map fst (supported_tokens self') = map fst (supported_tokens self)
             \<and> id_token_type_map self' = id_token_type_map self
             \<and> treasuries self' = treasuries self
             \<and> waiting_room self' = waiting_room self"
    using run md lt
    by (intro exI [of _ ?self'] exI [of _ ?md])
       (simp add: vec_map_try_get_map_of look keys_update_at_idx)
qed

text \<open>
  The scenario of the spec on the treasury of the tests: the price of token 3 becomes
  12000 and the other three tokens keep their metadata; the id 9 is unknown.
\<close>

theorem update_asset_notional_price_frame_witness:
  "update_asset_notional_price mock_for_test 9 12000 = Inl EUnsupportedTokenType
   \<and> (\<exists>self'. update_asset_notional_price mock_for_test 3 12000
                 = Inr (self', [Emit (UpdateTokenPriceEvent 3 12000)])
        \<and> vec_map_try_get (supported_tokens self') USDC
            = Some \<lparr> id' = 3, decimal_multiplier = 1000000, notional_value = 12000,
                     native_token = False \<rparr>
        \<and> vec_map_try_get (supported_tokens self') BTC
            = vec_map_try_get (supported_tokens mock_for_test) BTC
        \<and> vec_map_try_get (supported_tokens self') ETH
            = vec_map_try_get (supported_tokens mock_for_test) ETH
        \<and> vec_map_try_get (supported_tokens self') USDT
            = vec_map_try_get (supported_tokens mock_for_test) USDT)"
proof -
  have ids: "vec_map_try_get (id_token_type_map mock_for_test) 9 = None"
    "vec_map_try_get (id_token_type_map mock_for_test) 3 = Some USDC"
    by (simp_all add: vec_map_try_get_map_of mock_for_test_def create_def)
  have md: "vec_map_try_get (supported_tokens mock_for_test) USDC
      = Some \<lparr> id' = 3, decimal_multiplier = 1000000, notional_value = USD_VALUE_MULTIPLIER,
               native_token = False \<rparr>"
    by (simp add: vec_map_try_get_map_of mock_for_test_def create_def
        BTC_def ETH_def USDC_def USDT_def test_type_def)
  have ne: "BTC \<noteq> USDC" "ETH \<noteq> USDC" "USDT \<noteq> USDC"
    by (simp_all add: BTC_def ETH_def USDC_def USDT_def test_type_def)
  from update_asset_notional_price_frame [OF reach_mock, of 9 12000] ids(1)
  have a: "update_asset_notional_price mock_for_test 9 12000 = Inl EUnsupportedTokenType"
    by simp
  from update_asset_notional_price_frame [OF reach_mock, of 3 12000] ids(2)
  obtain self' metadata where b:
    "update_asset_notional_price mock_for_test 3 12000
       = Inr (self', [Emit (UpdateTokenPriceEvent 3 12000)])"
    "vec_map_try_get (supported_tokens mock_for_test) USDC = Some metadata"
    "vec_map_try_get (supported_tokens self') USDC = Some (metadata\<lparr>notional_value := 12000\<rparr>)"
    "\<forall>tn'. tn' \<noteq> USDC \<longrightarrow>
       vec_map_try_get (supported_tokens self') tn'
         = vec_map_try_get (supported_tokens mock_for_test) tn'"
    by blast
  from b(2) md have "metadata = \<lparr> id' = 3, decimal_multiplier = 1000000,
      notional_value = USD_VALUE_MULTIPLIER, native_token = False \<rparr>"
    by simp
  with a b ne show ?thesis by auto
qed

text \<open>
  C9. For a type with no treasury cap in the treasury, \<open>mint<T>\<close> and \<open>burn<T>\<close>
  abort with the field-not-found abort of the object bag. For a type whose cap was
  deposited they do what \<open>coin::mint\<close> and \<open>coin::burn\<close> do on that cap and store
  the cap back: within the range of \<open>u64\<close>, \<open>mint\<close> returns a coin of the requested
  amount and adds it to the supply, and \<open>burn\<close> takes the value of the coin off the
  supply.
\<close>

theorem mint_burn_pass_through:
  "(treasuries self T = None \<longrightarrow>
      mint self T amount = Inl (Abort M_dynamic_field 1)
    \<and> burn self T token = Inl (Abort M_dynamic_field 1))
   \<and> (\<forall>cap. treasuries self T = Some cap \<longrightarrow>
        mint self T amount
          = (case coin_mint cap amount of
               Inl e \<Rightarrow> Inl e
             | Inr (cap', c) \<Rightarrow> Inr (self\<lparr> treasuries := (treasuries self)(T \<mapsto> cap') \<rparr>, c))
      \<and> burn self T token
          = (case coin_burn cap token of
               Inl e \<Rightarrow> Inl e
             | Inr cap' \<Rightarrow> Inr (self\<lparr> treasuries := (treasuries self)(T \<mapsto> cap') \<rparr>))
      \<and> (unat (total_supply cap) + unat amount < 18446744073709551615 \<longrightarrow>
           mint self T amount
             = Inr (self\<lparr> treasuries := (treasuries self)
                       (T \<mapsto> cap\<lparr>total_supply := total_supply cap + amount\<rparr>) \<rparr>,
                    \<lparr> coin_value = amount \<rparr>))
      \<and> (coin_value token \<le> total_supply cap \<longrightarrow>
           burn self T token
             = Inr (self\<lparr> treasuries := (treasuries self)
                       (T \<mapsto> cap\<lparr>total_supply := total_supply cap - coin_value token\<rparr>) \<rparr>)))"
  by (auto simp: mint_def burn_def bag_borrow_mut_def coin_mint_def coin_burn_def
      split: sum.splits)

text \<open>The empty treasury has no cap for the coin; after its registration 5 are minted and 2 burnt.\<close>

theorem mint_burn_pass_through_witness:
  "mint create usdc_coin 5 = Inl (Abort M_dynamic_field 1)
   \<and> burn create usdc_coin \<lparr> coin_value = 5 \<rparr> = Inl (Abort M_dynamic_field 1)
   \<and> mint usdc_registered usdc_coin 5
       = Inr (usdc_registered\<lparr> treasuries := (treasuries usdc_registered)
                 (usdc_coin \<mapsto> \<lparr> total_supply = 5 \<rparr>) \<rparr>, \<lparr> coin_value = 5 \<rparr>)
   \<and> burn (usdc_registered\<lparr> treasuries := (treasuries usdc_registered)
                 (usdc_coin \<mapsto> \<lparr> total_supply = 5 \<rparr>) \<rparr>) usdc_coin \<lparr> coin_value = 2 \<rparr>
       = Inr (usdc_registered\<lparr> treasuries := (treasuries usdc_registered)
                 (usdc_coin \<mapsto> \<lparr> total_supply = 3 \<rparr>) \<rparr>)"
proof -
  have c: "treasuries create usdc_coin = None"
    by (simp add: create_def)
  have r: "treasuries usdc_registered usdc_coin = Some \<lparr> total_supply = 0 \<rparr>"
    by (simp add: usdc_registered_eq fresh_cap_def)
  let ?s = "usdc_registered\<lparr> treasuries := (treasuries usdc_registered)
                 (usdc_coin \<mapsto> \<lparr> total_supply = 5 \<rparr>) \<rparr>"
  have m: "treasuries ?s usdc_coin = Some \<lparr> total_supply = 5 \<rparr>"
    by simp
  from mint_burn_pass_through [of create usdc_coin 5 "\<lparr> coin_value = 5 \<rparr>"] c
  have 1: "mint create usdc_coin 5 = Inl (Abort M_dynamic_field 1)"
    "burn create usdc_coin \<lparr> coin_value = 5 \<rparr> = Inl (Abort M_dynamic_field 1)"
    by simp_all
  from mint_burn_pass_through [of usdc_registered usdc_coin 5 "\<lparr> coin_value = 5 \<rparr>"] r
  have 2: "mint usdc_registered usdc_coin 5 = Inr (?s, \<lparr> coin_value = 5 \<rparr>)"
    by (simp add: coin_mint_def)
  from mint_burn_pass_through [of ?s usdc_coin 5 "\<lparr> coin_value = 2 \<rparr>"] m
  have 3: "burn ?s usdc_coin \<lparr> coin_value = 2 \<rparr>
      = Inr (usdc_registered\<lparr> treasuries := (treasuries usdc_registered)
                 (usdc_coin \<mapsto> \<lparr> total_supply = 3 \<rparr>) \<rparr>)"
    by (simp add: coin_burn_def)
  from 1 2 3 show ?thesis by simp
qed

text \<open>
  In the empty treasury \<open>mint\<close> and \<open>burn\<close> abort in the object bag, not with
  \<open>EUnsupportedTokenType\<close> of the treasury module.
\<close>

theorem mint_burn_pass_through_counterexample:
  "mint create usdc_coin 5 = Inl (Abort M_dynamic_field 1)
   \<and> burn create usdc_coin \<lparr> coin_value = 5 \<rparr> = Inl (Abort M_dynamic_field 1)
   \<and> mint create usdc_coin 5 \<noteq> Inl EUnsupportedTokenType
   \<and> burn create usdc_coin \<lparr> coin_value = 5 \<rparr> \<noteq> Inl EUnsupportedTokenType"
  by (simp add: mint_def burn_def bag_borrow_mut_def create_def EUnsupportedTokenType_def)

section \<open>The golden vector\<close>

text \<open>
  C1. The message of \<open>testUpdateTokenPricesRegressionTest\<close> (type
  \<open>UPDATE_TOKEN_PRICES\<close>, version 1, nonce 266, chain id 3, payload
  \<open>0x01000000003b9aca00\<close>) encodes to the expected byte string of the test: the ASCII
  bytes of \<open>SUI_BRIDGE_MESSAGE\<close>, then the type, the version, the nonce in eight
  big-endian bytes, the chain id and the payload.
\<close>

theorem encodeMessage_golden_vector:
  "encodeMessage \<lparr> messageType = UPDATE_TOKEN_PRICES, version = 1, nonce = 266, chainID = 3,
       payload = [0x01, 0x00, 0x00, 0x00, 0x00, 0x3b, 0x9a, 0xca, 0x00] \<rparr>
   = [0x53, 0x55, 0x49, 0x5f, 0x42, 0x52, 0x49, 0x44, 0x47, 0x45, 0x5f, 0x4d, 0x45, 0x53,
      0x53, 0x41, 0x47, 0x45,
      0x04, 0x01,
      0x00, 0x00, 0x00, 0x00, 0x00, 0x00, 0x01, 0x0a,
      0x03,
      0x01, 0x00, 0x00, 0x00, 0x00, 0x3b, 0x9a, 0xca, 0x00]
   \<and> SUI_MESSAGE_PREFIX
       = [0x53, 0x55, 0x49, 0x5f, 0x42, 0x52, 0x49, 0x44, 0x47, 0x45, 0x5f, 0x4d, 0x45, 0x53,
          0x53, 0x41, 0x47, 0x45]
   \<and> encodeMessage \<lparr> messageType = UPDATE_TOKEN_PRICES, version = 1, nonce = 266,
          chainID = 3, payload = [0x01, 0x00, 0x00, 0x00, 0x00, 0x3b, 0x9a, 0xca, 0x00] \<rparr>
       = ascii_bytes ''SUI_BRIDGE_MESSAGE'' @ [UPDATE_TOKEN_PRICES] @ [1]
           @ [0, 0, 0, 0, 0, 0, 0x01, 0x0a] @ [3]
           @ [0x01, 0x00, 0x00, 0x00, 0x00, 0x3b, 0x9a, 0xca, 0x00]"
  by (simp add: encodeMessage_def SUI_MESSAGE_PREFIX_def ascii_bytes_def u64_be_def
      UPDATE_TOKEN_PRICES_def upt_rec)

end
